theory Spec2Isabelle
  imports Complex_Main "HOL-Library.Sublist"
begin

section \<open>Python values shared by the modules\<close>

text \<open>
  Exceptions are values. \<open>py_exception\<close> holds the instances of Python's \<open>Exception\<close>,
  which an \<open>except Exception\<close> handler catches.
\<close>

datatype py_exception =
  AttributeError | KeyError | TypeError | OverflowError | OtherException string

text \<open>
  The other instances of \<open>BaseException\<close>, which \<open>except Exception\<close> does not catch:
  \<open>asyncio.CancelledError\<close>, raised at an \<open>await\<close> when the coroutine is cancelled, and the
  rest (\<open>KeyboardInterrupt\<close>, \<open>SystemExit\<close>, ...) by class name.
\<close>

datatype base_exception = CancelledError | OtherBaseException string

text \<open>What a call can raise.\<close>

datatype raised = Exc py_exception | BaseExc base_exception

text \<open>
  A naive local \<open>datetime\<close> is the number of microseconds since 0001-01-01 00:00:00.
  \<open>datetime.max\<close> is 9999-12-31 23:59:59.999999 (day ordinal 3652059).
  \<open>timedelta(days=d)\<close> raises OverflowError beyond 999999999 days, and
  \<open>datetime - timedelta\<close> raises OverflowError outside the datetime range.
\<close>

type_synonym datetime = int

definition datetime_max :: datetime where
  "datetime_max = 3652059 * 86400000000 - 1"

definition timedelta_days :: "int \<Rightarrow> py_exception + int" where
  "timedelta_days days =
     (if 999999999 < abs days then Inl OverflowError else Inr (days * 86400000000))"

definition datetime_sub :: "datetime \<Rightarrow> int \<Rightarrow> py_exception + datetime" where
  "datetime_sub t delta =
     (let r = t - delta in if 0 \<le> r \<and> r \<le> datetime_max then Inr r else Inl OverflowError)"

definition hour_of :: "datetime \<Rightarrow> nat" where
  "hour_of t = nat ((t div 3600000000) mod 24)"

section \<open>Data model (src/models/data_models.py)\<close>

record TokenUsage =
  prompt_tokens :: int
  completion_tokens :: int
  total_tokens :: int

definition TokenUsage_init :: TokenUsage where
  "TokenUsage_init = \<lparr>prompt_tokens = 0, completion_tokens = 0, total_tokens = 0\<rparr>"

text \<open>\<open>face_details\<close> is a Python dict: an association list in insertion order.\<close>

record EmojiStatistics =
  face_count :: int
  mface_count :: int
  bface_count :: int
  sface_count :: int
  other_emoji_count :: int
  face_details :: "(string \<times> int) list"

definition EmojiStatistics_init :: EmojiStatistics where
  "EmojiStatistics_init =
     \<lparr>face_count = 0, mface_count = 0, bface_count = 0, sface_count = 0,
      other_emoji_count = 0, face_details = []\<rparr>"

definition total_emoji_count :: "EmojiStatistics \<Rightarrow> int" where
  "total_emoji_count es =
     face_count es + mface_count es + bface_count es + sface_count es + other_emoji_count es"

record GoldenQuote =
  content :: string
  sender :: string
  reason :: string

text \<open>The dataclass \<open>GroupStatistics\<close> with the eight fields it declares.\<close>

record GroupStatistics =
  message_count :: int
  total_characters :: int
  participant_count :: int
  most_active_period :: string
  golden_quotes :: "GoldenQuote list"
  emoji_count :: int
  emoji_statistics :: EmojiStatistics
  token_usage :: TokenUsage

definition GroupStatistics_field_names :: "string list" where
  "GroupStatistics_field_names =
     [''message_count'', ''total_characters'', ''participant_count'', ''most_active_period'',
      ''golden_quotes'', ''emoji_count'', ''emoji_statistics'', ''token_usage'']"

text \<open>The fields without a default: the constructor requires them.\<close>

definition GroupStatistics_required_names :: "string list" where
  "GroupStatistics_required_names =
     [''message_count'', ''total_characters'', ''participant_count'', ''most_active_period'',
      ''golden_quotes'', ''emoji_count'']"

text \<open>
  The \<open>__init__\<close> that \<open>@dataclass\<close> generates, called with keywords only: it raises
  TypeError on a keyword that is not a field and on a missing required field, and
  otherwise returns the object built from the values given.
\<close>

definition dataclass_init :: "string list \<Rightarrow> string list \<Rightarrow> string list \<Rightarrow> 'a \<Rightarrow> py_exception + 'a" where
  "dataclass_init declared required keywords obj =
     (if list_all (\<lambda>k. k \<in> set declared) keywords \<and> list_all (\<lambda>k. k \<in> set keywords) required
      then Inr obj else Inl TypeError)"

section \<open>Messages and the message source\<close>

text \<open>
  One content unit of a message: \<open>content.get("type")\<close> and the string-valued dict
  \<open>content.get("data", {})\<close>. Strings are UTF-8 byte lists.
\<close>

record content_unit =
  ctype :: string
  cdata :: "(string \<times> string) list"

text \<open>
  A message dict as the handler reads it: \<open>time\<close> is \<open>msg.get("time", 0)\<close>;
  \<open>sender_user_id\<close> is \<open>str(msg.get("sender", {}).get("user_id", ""))\<close>, None when that
  expression raises (the sender is not a dict); \<open>message_id\<close> is None when
  \<open>msg["message_id"]\<close> raises KeyError; \<open>message\<close> is \<open>msg.get("message", [])\<close>.
\<close>

record msg =
  time :: int
  sender_user_id :: "string option"
  message_id :: "int option"
  message :: "content_unit list"

text \<open>An element of a page is a message dict, or something that is not a dict at all.\<close>

datatype page_item = Msg msg | NotDict

text \<open>
  The outcome of one \<open>await call_action("get_group_msg_history", ...)\<close>: the await (or
  reading its result) raises; the result is falsy or has no \<open>"messages"\<close> key; its
  \<open>"messages"\<close> value is truthy but cannot be iterated (a number, \<open>True\<close>); or it
  carries the list \<open>result.get("messages", [])\<close>. The source is any function of the
  number of requests issued before and of the cursor \<open>message_seq\<close> sent.
\<close>

datatype response = Raises raised | Invalid | NotIterable | Page "page_item list"

type_synonym message_source = "nat \<Rightarrow> int \<Rightarrow> response"

section \<open>MessageHandler.fetch_group_messages (src/core/message_handler.py)\<close>

text \<open>The handler's own state and the two limits it reads from its config manager.\<close>

record handler =
  bot_qq_id :: "string option"
  max_query_rounds :: int
  max_messages :: int

text \<open>\<open>self.bot_qq_id and sender_id == self.bot_qq_id\<close>: None and the empty string are falsy.\<close>

definition is_bot_sender :: "handler \<Rightarrow> string \<Rightarrow> bool" where
  "is_bot_sender self sender_id =
     (case bot_qq_id self of None \<Rightarrow> False | Some b \<Rightarrow> b \<noteq> [] \<and> sender_id = b)"

text \<open>
  The inner \<open>for msg in round_messages\<close> loop, on the accumulators
  \<open>(messages, valid_messages_in_round, oldest_msg_time)\<close>. \<open>fromtimestamp\<close> is
  \<open>datetime.fromtimestamp\<close> of the host (its time zone), None where it raises. A message
  whose processing raises is skipped by the inner \<open>except\<close>, keeping what was assigned
  before the raise.
\<close>

fun filter_round ::
  "(int \<Rightarrow> datetime option) \<Rightarrow> handler \<Rightarrow> datetime \<Rightarrow> datetime \<Rightarrow> page_item list \<Rightarrow>
   msg list \<times> nat \<times> datetime option \<Rightarrow> msg list \<times> nat \<times> datetime option" where
  "filter_round fromtimestamp self start_time end_time [] acc = acc"
| "filter_round fromtimestamp self start_time end_time (NotDict # rest) acc =
     filter_round fromtimestamp self start_time end_time rest acc"
| "filter_round fromtimestamp self start_time end_time (Msg m # rest) (messages, valid, oldest) =
     (case fromtimestamp (time m) of
        None \<Rightarrow> filter_round fromtimestamp self start_time end_time rest (messages, valid, oldest)
      | Some msg_time \<Rightarrow>
          (case sender_user_id m of
             None \<Rightarrow>
               filter_round fromtimestamp self start_time end_time rest
                 (messages, valid, Some msg_time)
           | Some sender_id \<Rightarrow>
               if is_bot_sender self sender_id
               then filter_round fromtimestamp self start_time end_time rest
                      (messages, valid, Some msg_time)
               else if start_time \<le> msg_time \<and> msg_time \<le> end_time
               then filter_round fromtimestamp self start_time end_time rest
                      (messages @ [m], valid + 1, Some msg_time)
               else filter_round fromtimestamp self start_time end_time rest
                      (messages, valid, Some msg_time)))"

text \<open>\<open>round_messages[0]["message_id"]\<close>: raises on a non-dict and on a missing key.\<close>

fun first_message_id :: "page_item list \<Rightarrow> int option" where
  "first_message_id [] = None"
| "first_message_id (NotDict # rest) = None"
| "first_message_id (Msg m # rest) = message_id m"

text \<open>
  The local variables of the fetch loop. \<open>requests\<close> is a ghost counter of the calls to
  the message source; the source does not keep it.
\<close>

record fetch_state =
  messages :: "msg list"
  message_seq :: int
  query_rounds :: int
  consecutive_failures :: int
  requests :: nat

definition max_failures :: int where
  "max_failures = 3"

text \<open>
  How one pass through the body of the \<open>while\<close> leaves it: on to the next test of the
  loop condition, out of the loop by \<open>break\<close>, or out of the method with an exception
  that no handler catches.
\<close>

datatype control = Continue | Break | Propagate base_exception

text \<open>
  \<open>consecutive_failures += 1; if consecutive_failures >= max_failures: break\<close>, then
  \<open>continue\<close> (line 71) or \<open>await asyncio.sleep(1)\<close> (line 125). The two
  \<open>asyncio.sleep\<close> calls of the loop are taken to complete.
\<close>

definition count_failure :: "fetch_state \<Rightarrow> fetch_state \<times> control" where
  "count_failure st =
     (let st' = st\<lparr>consecutive_failures := consecutive_failures st + 1\<rparr>
      in (st', if consecutive_failures st' < max_failures then Continue else Break))"

text \<open>
  One iteration of the \<open>while\<close> body (the \<open>try\<close> with its \<open>except Exception\<close>). What
  the await raises is counted as a failure when it is an \<open>Exception\<close> and leaves the
  method otherwise (the outer handler is an \<open>except Exception\<close> too). A value that
  cannot be iterated passes the tests of lines 66 and 75, so line 80 resets the counter;
  the \<open>for\<close> statement of line 86 then raises TypeError and the handler counts one
  failure.
\<close>

definition fetch_round ::
  "(int \<Rightarrow> datetime option) \<Rightarrow> handler \<Rightarrow> message_source \<Rightarrow> datetime \<Rightarrow> datetime \<Rightarrow>
   fetch_state \<Rightarrow> fetch_state \<times> control" where
  "fetch_round fromtimestamp self source start_time end_time st =
     (let st0 = st\<lparr>requests := requests st + 1\<rparr> in
      case source (requests st) (message_seq st) of
        Raises r \<Rightarrow> (case r of Exc e \<Rightarrow> count_failure st0 | BaseExc b \<Rightarrow> (st0, Propagate b))
      | Invalid \<Rightarrow> count_failure st0
      | NotIterable \<Rightarrow> count_failure (st0\<lparr>consecutive_failures := 0\<rparr>)
      | Page round_messages \<Rightarrow>
          if round_messages = [] then (st0, Break)
          else
            (case filter_round fromtimestamp self start_time end_time round_messages
                    (messages st0, 0, None) of
               (msgs, valid_messages_in_round, oldest_msg_time) \<Rightarrow>
                 let st1 = st0\<lparr>messages := msgs, consecutive_failures := 0\<rparr> in
                 if (case oldest_msg_time of None \<Rightarrow> False | Some t \<Rightarrow> t < start_time)
                 then (st1, Break)
                 else if valid_messages_in_round = 0 then (st1, Break)
                 else
                   (case first_message_id round_messages of
                      None \<Rightarrow> count_failure st1
                    | Some mid \<Rightarrow>
                        (st1\<lparr>message_seq := mid, query_rounds := query_rounds st1 + 1\<rparr>,
                         Continue))))"

definition loop_guard :: "handler \<Rightarrow> fetch_state \<Rightarrow> bool" where
  "loop_guard self st =
     (int (length (messages st)) < max_messages self \<and> query_rounds st < max_query_rounds self)"

text \<open>
  The \<open>while len(messages) < max_messages and query_rounds < max_rounds\<close> loop. It
  gives the final local state, with the exception that leaves the method if there is
  one; None is a loop that never ends.
\<close>

partial_function (option) fetch_loop ::
  "(int \<Rightarrow> datetime option) \<Rightarrow> handler \<Rightarrow> message_source \<Rightarrow> datetime \<Rightarrow> datetime \<Rightarrow>
   fetch_state \<Rightarrow> (fetch_state \<times> base_exception option) option" where
  "fetch_loop fromtimestamp self source start_time end_time st =
     (if loop_guard self st
      then (case snd (fetch_round fromtimestamp self source start_time end_time st) of
              Continue \<Rightarrow>
                fetch_loop fromtimestamp self source start_time end_time
                  (fst (fetch_round fromtimestamp self source start_time end_time st))
            | Break \<Rightarrow>
                Some (fst (fetch_round fromtimestamp self source start_time end_time st), None)
            | Propagate b \<Rightarrow>
                Some (fst (fetch_round fromtimestamp self source start_time end_time st), Some b))
      else Some (st, None))"

text \<open>
  How a call ends when it does: by one of the two paths that return \<open>[]\<close> before the
  loop (the guard on the arguments, and the outer \<open>except\<close> when computing the window
  raises), after the loop with its final state, or with an exception raised in the loop
  that no handler catches (the state is kept for its ghost counter).
\<close>

datatype fetch_outcome =
  ReturnedEarly | LoopEnded fetch_state | Propagated base_exception fetch_state

definition loop_outcome :: "fetch_state \<times> base_exception option \<Rightarrow> fetch_outcome" where
  "loop_outcome r = (case snd r of None \<Rightarrow> LoopEnded (fst r) | Some b \<Rightarrow> Propagated b (fst r))"

text \<open>
  The whole method. \<open>bot_instance\<close> is the truth value of the client object, \<open>now\<close> is
  \<open>datetime.now()\<close>. None is a call that never ends.
\<close>

definition fetch_run ::
  "(int \<Rightarrow> datetime option) \<Rightarrow> datetime \<Rightarrow> handler \<Rightarrow> message_source \<Rightarrow> bool \<Rightarrow> string \<Rightarrow> int \<Rightarrow>
   fetch_outcome option" where
  "fetch_run fromtimestamp now self source bot_instance group_id days =
     (if bot_instance \<and> group_id \<noteq> []
      then
        (case timedelta_days days of
           Inl e \<Rightarrow> Some ReturnedEarly
         | Inr delta \<Rightarrow>
             (case datetime_sub now delta of
                Inl e \<Rightarrow> Some ReturnedEarly
              | Inr start_time \<Rightarrow>
                  map_option loop_outcome
                    (fetch_loop fromtimestamp self source start_time now
                       \<lparr>messages = [], message_seq = 0, query_rounds = 0,
                        consecutive_failures = 0, requests = 0\<rparr>)))
      else Some ReturnedEarly)"

text \<open>What the caller gets from a call that ends: the list returned, or the exception.\<close>

definition outcome_result :: "fetch_outcome \<Rightarrow> base_exception + msg list" where
  "outcome_result out =
     (case out of
        ReturnedEarly \<Rightarrow> Inr []
      | LoopEnded st \<Rightarrow> Inr (messages st)
      | Propagated b st \<Rightarrow> Inl b)"

definition fetch_group_messages ::
  "(int \<Rightarrow> datetime option) \<Rightarrow> datetime \<Rightarrow> handler \<Rightarrow> message_source \<Rightarrow> bool \<Rightarrow> string \<Rightarrow> int \<Rightarrow>
   (base_exception + msg list) option" where
  "fetch_group_messages fromtimestamp now self source bot_instance group_id days =
     map_option outcome_result
       (fetch_run fromtimestamp now self source bot_instance group_id days)"

text \<open>Ghost observations of a call that ends: the page requests issued, the rounds counted.\<close>

definition outcome_requests :: "fetch_outcome \<Rightarrow> nat" where
  "outcome_requests out =
     (case out of
        ReturnedEarly \<Rightarrow> 0
      | LoopEnded st \<Rightarrow> requests st
      | Propagated b st \<Rightarrow> requests st)"

definition outcome_rounds :: "fetch_outcome \<Rightarrow> int" where
  "outcome_rounds out =
     (case out of
        ReturnedEarly \<Rightarrow> 0
      | LoopEnded st \<Rightarrow> query_rounds st
      | Propagated b st \<Rightarrow> query_rounds st)"

definition page_requests ::
  "(int \<Rightarrow> datetime option) \<Rightarrow> datetime \<Rightarrow> handler \<Rightarrow> message_source \<Rightarrow> bool \<Rightarrow> string \<Rightarrow> int \<Rightarrow>
   nat option" where
  "page_requests fromtimestamp now self source bot_instance group_id days =
     map_option outcome_requests
       (fetch_run fromtimestamp now self source bot_instance group_id days)"

definition counted_rounds ::
  "(int \<Rightarrow> datetime option) \<Rightarrow> datetime \<Rightarrow> handler \<Rightarrow> message_source \<Rightarrow> bool \<Rightarrow> string \<Rightarrow> int \<Rightarrow>
   int option" where
  "counted_rounds fromtimestamp now self source bot_instance group_id days =
     map_option outcome_rounds
       (fetch_run fromtimestamp now self source bot_instance group_id days)"

section \<open>MessageHandler.calculate_statistics (src/core/message_handler.py)\<close>

text \<open>\<open>d.get(key, default)\<close> on a string-valued dict.\<close>

definition dict_get :: "(string \<times> string) list \<Rightarrow> string \<Rightarrow> string \<Rightarrow> string" where
  "dict_get d k dflt = (case map_of d k of None \<Rightarrow> dflt | Some v \<Rightarrow> v)"

text \<open>
  \<open>d[k] = d.get(k, 0) + 1\<close> and \<open>d[k] += 1\<close> on a \<open>defaultdict(int)\<close>: a key already
  present keeps its place, a new key is appended (dicts keep insertion order).
\<close>

fun dict_incr :: "('k \<times> int) list \<Rightarrow> 'k \<Rightarrow> ('k \<times> int) list" where
  "dict_incr [] k = [(k, 1)]"
| "dict_incr ((k', v) # rest) k =
     (if k' = k then (k', v + 1) # rest else (k', v) # dict_incr rest k)"

text \<open>
  \<open>max(items, key=lambda x: x[1])\<close>: Python keeps the first item and replaces it only by
  an item whose key is strictly greater.
\<close>

fun py_max_by_count :: "('k \<times> int) \<Rightarrow> ('k \<times> int) list \<Rightarrow> ('k \<times> int)" where
  "py_max_by_count best [] = best"
| "py_max_by_count best (x # xs) =
     (if snd best < snd x then py_max_by_count x xs else py_max_by_count best xs)"

definition most_active_hour_of :: "(nat \<times> int) list \<Rightarrow> nat" where
  "most_active_hour_of hour_counts =
     (case hour_counts of [] \<Rightarrow> 0 | x # xs \<Rightarrow> fst (py_max_by_count x xs))"

text \<open>The format specification \<open>:02d\<close> on a natural number.\<close>

definition digit_char :: "nat \<Rightarrow> char" where
  "digit_char d = ''0123456789'' ! d"

fun decimal :: "nat \<Rightarrow> string" where
  "decimal n = (if n < 10 then [digit_char n] else decimal (n div 10) @ [digit_char (n mod 10)])"

declare decimal.simps [simp del]

definition format_02d :: "nat \<Rightarrow> string" where
  "format_02d n = (if n < 10 then CHR ''0'' # decimal n else decimal n)"

definition format_period :: "nat \<Rightarrow> string" where
  "format_period most_active_hour =
     format_02d most_active_hour @ '':00-'' @ format_02d ((most_active_hour + 1) mod 24) @ '':00''"

text \<open>
  \<open>len(text)\<close> counts code points: in UTF-8 these are the bytes that are not continuation
  bytes (0x80 to 0xBF).
\<close>

definition py_len :: "string \<Rightarrow> int" where
  "py_len s = int (length (filter (\<lambda>c. (of_char c :: nat) < 128 \<or> 192 \<le> (of_char c :: nat)) s))"

text \<open>The two caption markers of line 178, as UTF-8.\<close>

definition marker_animated_sticker :: string where
  "marker_animated_sticker =
     [CHR 0xE5, CHR 0x8A, CHR 0xA8, CHR 0xE7, CHR 0x94, CHR 0xBB,
      CHR 0xE8, CHR 0xA1, CHR 0xA8, CHR 0xE6, CHR 0x83, CHR 0x85]"

definition marker_sticker :: string where
  "marker_sticker = [CHR 0xE8, CHR 0xA1, CHR 0xA8, CHR 0xE6, CHR 0x83, CHR 0x85]"

text \<open>
  The body of \<open>for content in msg.get("message", [])\<close> on the pair
  \<open>(total_chars, emoji_statistics)\<close>. \<open>str_lower\<close> is Python's \<open>str(data).lower()\<close> on the
  data dict.
\<close>

definition count_content ::
  "((string \<times> string) list \<Rightarrow> string) \<Rightarrow> content_unit \<Rightarrow> int \<times> EmojiStatistics \<Rightarrow>
   int \<times> EmojiStatistics" where
  "count_content str_lower c acc =
     (case acc of (total_chars, es) \<Rightarrow>
        if ctype c = ''text''
        then (total_chars + py_len (dict_get (cdata c) ''text'' []), es)
        else if ctype c = ''face''
        then (total_chars,
              es\<lparr>face_count := face_count es + 1,
                 face_details :=
                   dict_incr (face_details es) (''face_'' @ dict_get (cdata c) ''id'' ''unknown'')\<rparr>)
        else if ctype c = ''mface''
        then (total_chars,
              es\<lparr>mface_count := mface_count es + 1,
                 face_details :=
                   dict_incr (face_details es)
                     (''mface_'' @ dict_get (cdata c) ''emoji_id'' ''unknown'')\<rparr>)
        else if ctype c = ''bface''
        then (total_chars,
              es\<lparr>bface_count := bface_count es + 1,
                 face_details :=
                   dict_incr (face_details es) (''bface_'' @ dict_get (cdata c) ''p'' ''unknown'')\<rparr>)
        else if ctype c = ''sface''
        then (total_chars,
              es\<lparr>sface_count := sface_count es + 1,
                 face_details :=
                   dict_incr (face_details es) (''sface_'' @ dict_get (cdata c) ''id'' ''unknown'')\<rparr>)
        else if ctype c = ''image''
        then (let summary = dict_get (cdata c) ''summary'' []
              in if sublist marker_animated_sticker summary \<or> sublist marker_sticker summary
                 then (total_chars,
                       es\<lparr>mface_count := mface_count es + 1,
                          face_details :=
                            dict_incr (face_details es)
                              (''animated_'' @ dict_get (cdata c) ''file'' ''unknown'')\<rparr>)
                 else (total_chars, es))
        else if (ctype c = ''record'' \<or> ctype c = ''video'')
                \<and> sublist ''emoji'' (str_lower (cdata c))
        then (total_chars, es\<lparr>other_emoji_count := other_emoji_count es + 1\<rparr>)
        else (total_chars, es))"

text \<open>The accumulators of the \<open>for msg in messages\<close> loop.\<close>

record stats_acc =
  total_chars :: int
  participants :: "string set"
  hour_counts :: "(nat \<times> int) list"
  emoji_acc :: EmojiStatistics

text \<open>
  The loop has no handler: an exception leaves the method. The sender expression raises
  AttributeError when the sender is not a dict; \<open>fromtimestamp\<close> raises on a timestamp it
  cannot convert.
\<close>

fun stats_loop ::
  "(int \<Rightarrow> datetime option) \<Rightarrow> ((string \<times> string) list \<Rightarrow> string) \<Rightarrow> msg list \<Rightarrow> stats_acc \<Rightarrow>
   py_exception + stats_acc" where
  "stats_loop fromtimestamp str_lower [] acc = Inr acc"
| "stats_loop fromtimestamp str_lower (m # rest) acc =
     (case sender_user_id m of
        None \<Rightarrow> Inl AttributeError
      | Some sender_id \<Rightarrow>
          (case fromtimestamp (time m) of
             None \<Rightarrow> Inl OverflowError
           | Some msg_time \<Rightarrow>
               (case fold (count_content str_lower) (message m) (total_chars acc, emoji_acc acc) of
                  (tc, es) \<Rightarrow>
                    stats_loop fromtimestamp str_lower rest
                      \<lparr>total_chars = tc,
                       participants = insert sender_id (participants acc),
                       hour_counts = dict_incr (hour_counts acc) (hour_of msg_time),
                       emoji_acc = es\<rparr>)))"

text \<open>
  The values the method computes for the declared fields: the loop, the most active period
  of lines 191-192, and the argument expressions of lines 198-206.
\<close>

definition statistics_arguments ::
  "(int \<Rightarrow> datetime option) \<Rightarrow> ((string \<times> string) list \<Rightarrow> string) \<Rightarrow> msg list \<Rightarrow>
   py_exception + GroupStatistics" where
  "statistics_arguments fromtimestamp str_lower msgs =
     (case stats_loop fromtimestamp str_lower msgs
             \<lparr>total_chars = 0, participants = {}, hour_counts = [],
              emoji_acc = EmojiStatistics_init\<rparr> of
        Inl e \<Rightarrow> Inl e
      | Inr acc \<Rightarrow>
          Inr \<lparr>message_count = int (length msgs),
               total_characters = total_chars acc,
               participant_count = int (card (participants acc)),
               most_active_period = format_period (most_active_hour_of (hour_counts acc)),
               golden_quotes = [],
               emoji_count = total_emoji_count (emoji_acc acc),
               emoji_statistics = emoji_acc acc,
               token_usage = TokenUsage_init\<rparr>)"

text \<open>The nine keywords of the constructor call of lines 197-207.\<close>

definition call_keywords :: "string list" where
  "call_keywords =
     [''message_count'', ''total_characters'', ''participant_count'', ''most_active_period'',
      ''golden_quotes'', ''emoji_count'', ''emoji_statistics'', ''activity_visualization'',
      ''token_usage'']"

text \<open>
  The method. \<open>generate_activity_visualization\<close> is the method of the visualizer object
  that the handler holds (src/visualization/activity_charts.py, outside the modules
  modelled here): from the state of that object and the message list it returns or
  raises, and leaves the object in a new state. It is called at line 195, before the
  constructor. The constructor is called with the keyword \<open>activity_visualization\<close>,
  which the dataclass does not declare. The method has no handler: what is raised reaches
  its caller. The result is paired with the state in which the call leaves the visualizer.
\<close>

definition calculate_statistics ::
  "(int \<Rightarrow> datetime option) \<Rightarrow> ((string \<times> string) list \<Rightarrow> string) \<Rightarrow>
   ('vs \<Rightarrow> msg list \<Rightarrow> (raised + 'v) \<times> 'vs) \<Rightarrow> 'vs \<Rightarrow> msg list \<Rightarrow>
   (raised + GroupStatistics) \<times> 'vs" where
  "calculate_statistics fromtimestamp str_lower generate_activity_visualization visualizer msgs =
     (case statistics_arguments fromtimestamp str_lower msgs of
        Inl e \<Rightarrow> (Inl (Exc e), visualizer)
      | Inr arguments \<Rightarrow>
          (case generate_activity_visualization visualizer msgs of
             (Inl r, visualizer') \<Rightarrow> (Inl r, visualizer')
           | (Inr activity_visualization, visualizer') \<Rightarrow>
               (case dataclass_init GroupStatistics_field_names GroupStatistics_required_names
                       call_keywords arguments of
                  Inl e \<Rightarrow> (Inl (Exc e), visualizer')
                | Inr group_statistics \<Rightarrow> (Inr group_statistics, visualizer'))))"

section \<open>BaseAnalyzer.analyze (src/analysis/analyzers/base_analyzer.py)\<close>

text \<open>
  What a subclass supplies. Every method returns or raises, and is taken to be a function
  of its arguments: a method without arguments gives the same outcome at each call.
  \<open>get_max_tokens\<close> and \<open>get_temperature\<close> return 10000 and 0.6 in the base class.
  \<open>'data\<close> is the analysis input, \<open>'d\<close> a raw record (a dict) and \<open>'o\<close> a data object.
\<close>

record ('data, 'd, 'o) analyzer =
  get_data_type :: "raised + string"
  get_max_count :: "raised + int"
  get_max_tokens :: "raised + int"
  get_temperature :: "raised + real"
  build_prompt :: "'data \<Rightarrow> raised + string"
  extract_with_regex :: "string \<Rightarrow> int \<Rightarrow> raised + 'd list"
  create_data_objects :: "'d list \<Rightarrow> raised + 'o list"

definition default_max_tokens :: int where
  "default_max_tokens = 10000"

definition default_temperature :: real where
  "default_temperature = 6 / 10"

text \<open>
  The functions imported from \<open>utils.llm_utils\<close> and \<open>utils.json_utils\<close> (outside the
  modules modelled here), with the context and the config manager fixed.
  \<open>call_provider_with_retry\<close> is awaited: it takes the prompt, \<open>max_tokens\<close>, the
  temperature and \<open>umo\<close> and returns a response or None, or raises, among others
  \<open>CancelledError\<close> when the call is cancelled while it waits. \<open>extract_token_usage\<close>
  returns a dict; \<open>parse_json_response\<close> returns \<open>(success, parsed_data, error_msg)\<close>, a
  \<open>parsed_data\<close> of None being the empty list.
\<close>

record ('resp, 'd) llm_utils =
  call_provider_with_retry ::
    "string \<Rightarrow> int \<Rightarrow> real \<Rightarrow> string option \<Rightarrow> raised + 'resp option"
  extract_token_usage :: "'resp \<Rightarrow> raised + (string \<times> int) list"
  extract_response_text :: "'resp \<Rightarrow> raised + string"
  parse_json_response :: "string \<Rightarrow> string \<Rightarrow> raised + (bool \<times> 'd list \<times> string)"

text \<open>\<open>d[key]\<close> on a dict: KeyError when the key is missing.\<close>

definition dict_item :: "(string \<times> int) list \<Rightarrow> string \<Rightarrow> raised + int" where
  "dict_item d k = (case map_of d k of None \<Rightarrow> Inl (Exc KeyError) | Some v \<Rightarrow> Inr v)"

text \<open>
  The body of the \<open>try\<close>: the first exception ends it. The log line after
  \<open>build_prompt\<close> is the first call of \<open>get_data_type\<close>; the later log lines call it
  again and so return as the first did.
\<close>

definition analyze_try ::
  "('data, 'd, 'o) analyzer \<Rightarrow> ('resp, 'd) llm_utils \<Rightarrow> 'data \<Rightarrow> string option \<Rightarrow>
   raised + ('o list \<times> TokenUsage)" where
  "analyze_try self utils data umo =
     (case build_prompt self data of
        Inl r \<Rightarrow> Inl r
      | Inr prompt \<Rightarrow>
     (case get_data_type self of
        Inl r \<Rightarrow> Inl r
      | Inr data_type \<Rightarrow>
     (case get_max_tokens self of
        Inl r \<Rightarrow> Inl r
      | Inr max_tokens \<Rightarrow>
     (case get_temperature self of
        Inl r \<Rightarrow> Inl r
      | Inr temperature \<Rightarrow>
     (case call_provider_with_retry utils prompt max_tokens temperature umo of
        Inl r \<Rightarrow> Inl r
      | Inr None \<Rightarrow> Inr ([], TokenUsage_init)
      | Inr (Some response) \<Rightarrow>
     (case extract_token_usage utils response of
        Inl r \<Rightarrow> Inl r
      | Inr token_usage_dict \<Rightarrow>
     (case dict_item token_usage_dict ''prompt_tokens'' of
        Inl r \<Rightarrow> Inl r
      | Inr pt \<Rightarrow>
     (case dict_item token_usage_dict ''completion_tokens'' of
        Inl r \<Rightarrow> Inl r
      | Inr ct \<Rightarrow>
     (case dict_item token_usage_dict ''total_tokens'' of
        Inl r \<Rightarrow> Inl r
      | Inr tt \<Rightarrow>
     (let token_usage = \<lparr>prompt_tokens = pt, completion_tokens = ct, total_tokens = tt\<rparr> in
      case extract_response_text utils response of
        Inl r \<Rightarrow> Inl r
      | Inr result_text \<Rightarrow>
     (case parse_json_response utils result_text data_type of
        Inl r \<Rightarrow> Inl r
      | Inr (success, parsed_data, error_msg) \<Rightarrow>
          if success \<and> parsed_data \<noteq> []
          then (case create_data_objects self parsed_data of
                  Inl r \<Rightarrow> Inl r
                | Inr data_objects \<Rightarrow> Inr (data_objects, token_usage))
          else (case get_max_count self of
                  Inl r \<Rightarrow> Inl r
                | Inr max_count \<Rightarrow>
               (case extract_with_regex self result_text max_count of
                  Inl r \<Rightarrow> Inl r
                | Inr regex_data \<Rightarrow>
                    if regex_data \<noteq> []
                    then (case create_data_objects self regex_data of
                            Inl r \<Rightarrow> Inl r
                          | Inr data_objects \<Rightarrow> Inr (data_objects, token_usage))
                    else Inr ([], token_usage))))))))))))))"

text \<open>
  The \<open>except Exception as e\<close> clause on what the body raised. It does not catch what is
  not an instance of \<open>Exception\<close>. Its log line calls \<open>get_data_type\<close>, and what that
  call raises leaves the method; otherwise \<open>([], TokenUsage())\<close> is returned.
\<close>

definition analyze_except ::
  "('data, 'd, 'o) analyzer \<Rightarrow> raised \<Rightarrow> raised + ('o list \<times> TokenUsage)" where
  "analyze_except self r =
     (case r of
        BaseExc b \<Rightarrow> Inl (BaseExc b)
      | Exc e \<Rightarrow>
          (case get_data_type self of
             Inl r' \<Rightarrow> Inl r'
           | Inr data_type \<Rightarrow> Inr ([], TokenUsage_init)))"

text \<open>The method: what it returns, or the exception that reaches its caller.\<close>

definition analyze ::
  "('data, 'd, 'o) analyzer \<Rightarrow> ('resp, 'd) llm_utils \<Rightarrow> 'data \<Rightarrow> string option \<Rightarrow>
   raised + ('o list \<times> TokenUsage)" where
  "analyze self utils data umo =
     (case analyze_try self utils data umo of
        Inl r \<Rightarrow> analyze_except self r
      | Inr result \<Rightarrow> Inr result)"

section \<open>Notions used to state the properties\<close>

text \<open>The test of line 96 on one message: its time converts and lies in the window.\<close>

definition in_window :: "(int \<Rightarrow> datetime option) \<Rightarrow> datetime \<Rightarrow> datetime \<Rightarrow> msg \<Rightarrow> bool" where
  "in_window f s e m = (case f (time m) of None \<Rightarrow> False | Some t \<Rightarrow> s \<le> t \<and> t \<le> e)"

text \<open>The minimum timestamp among the messages of a page, as the specification words it.\<close>

fun page_min_time :: "(int \<Rightarrow> datetime option) \<Rightarrow> page_item list \<Rightarrow> datetime option" where
  "page_min_time fromtimestamp [] = None"
| "page_min_time fromtimestamp (NotDict # rest) = page_min_time fromtimestamp rest"
| "page_min_time fromtimestamp (Msg m # rest) =
     (case fromtimestamp (time m) of
        None \<Rightarrow> page_min_time fromtimestamp rest
      | Some t \<Rightarrow>
          (case page_min_time fromtimestamp rest of
             None \<Rightarrow> Some t
           | Some u \<Rightarrow> Some (min t u)))"

text \<open>
  An upper bound on the page requests still to come from a loop state: three for every
  message that may still be collected, less the failures already counted.
\<close>

definition request_budget :: "handler \<Rightarrow> fetch_state \<Rightarrow> int" where
  "request_budget self st =
     (if int (length (messages st)) < max_messages self
      then 3 * (max_messages self - int (length (messages st))) - consecutive_failures st
      else 0)"

definition budget_inv :: "handler \<Rightarrow> int \<Rightarrow> fetch_state \<Rightarrow> bool" where
  "budget_inv self B st =
     (0 \<le> consecutive_failures st \<and> consecutive_failures st \<le> 2
      \<and> int (requests st) + request_budget self st \<le> B)"

text \<open>
  The same bound counted in rounds, for sources whose non-empty pages start with a message
  that has an id.
\<close>

definition round_budget :: "handler \<Rightarrow> fetch_state \<Rightarrow> int" where
  "round_budget self st =
     (if query_rounds st < max_query_rounds self
      then 3 * (max_query_rounds self - query_rounds st) - consecutive_failures st
      else 0)"

definition round_budget_inv :: "handler \<Rightarrow> int \<Rightarrow> fetch_state \<Rightarrow> bool" where
  "round_budget_inv self B st =
     (0 \<le> consecutive_failures st \<and> consecutive_failures st \<le> 2
      \<and> int (requests st) + round_budget self st \<le> B)"

text \<open>The hours of a message list that the histogram is built from.\<close>

definition message_hours :: "(int \<Rightarrow> datetime option) \<Rightarrow> msg list \<Rightarrow> nat list" where
  "message_hours fromtimestamp msgs =
     map (\<lambda>m. case fromtimestamp (time m) of None \<Rightarrow> 0 | Some t \<Rightarrow> hour_of t) msgs"

text \<open>The distinct elements of a list in the order of their first appearance.\<close>

fun first_seen :: "'a list \<Rightarrow> 'a list" where
  "first_seen [] = []"
| "first_seen (x # xs) = x # filter (\<lambda>k. k \<noteq> x) (first_seen xs)"

text \<open>The dict \<open>hour_counts\<close> built from a list of hours.\<close>

definition histogram :: "nat list \<Rightarrow> (nat \<times> int) list" where
  "histogram hs = fold (\<lambda>h d. dict_incr d h) hs []"

text \<open>Every step of the body returned, and the provider gave a response.\<close>

definition steps_returned ::
  "('data, 'd, 'o) analyzer \<Rightarrow> ('resp, 'd) llm_utils \<Rightarrow> 'data \<Rightarrow> string option \<Rightarrow> bool" where
  "steps_returned self utils data umo =
     (\<exists>prompt data_type max_tokens temperature response token_usage_dict pt ct tt result_text
        success parsed_data error_msg.
        build_prompt self data = Inr prompt
        \<and> get_data_type self = Inr data_type
        \<and> get_max_tokens self = Inr max_tokens
        \<and> get_temperature self = Inr temperature
        \<and> call_provider_with_retry utils prompt max_tokens temperature umo = Inr (Some response)
        \<and> extract_token_usage utils response = Inr token_usage_dict
        \<and> map_of token_usage_dict ''prompt_tokens'' = Some pt
        \<and> map_of token_usage_dict ''completion_tokens'' = Some ct
        \<and> map_of token_usage_dict ''total_tokens'' = Some tt
        \<and> extract_response_text utils response = Inr result_text
        \<and> parse_json_response utils result_text data_type
            = Inr (success, parsed_data, error_msg)
        \<and> (if success \<and> parsed_data \<noteq> []
            then \<not> isl (create_data_objects self parsed_data)
            else (case get_max_count self of
                    Inl r \<Rightarrow> False
                  | Inr max_count \<Rightarrow>
                      (case extract_with_regex self result_text max_count of
                         Inl r \<Rightarrow> False
                       | Inr regex_data \<Rightarrow>
                           regex_data = [] \<or> \<not> isl (create_data_objects self regex_data)))))"

section \<open>Concrete inputs\<close>

text \<open>
  \<open>datetime.fromtimestamp\<close> on a host whose local time is UTC: 1970-01-01 is
  62135596800 seconds after 0001-01-01. \<open>ex_now\<close> is 2024-01-01 00:00:00.
\<close>

definition fromtimestamp_utc :: "int \<Rightarrow> datetime option" where
  "fromtimestamp_utc t =
     (let r = 62135596800000000 + t * 1000000
      in if 0 \<le> r \<and> r \<le> datetime_max then Some r else None)"

definition ex_now :: datetime where
  "ex_now = 63839664000000000"

definition ex_msg :: "int \<Rightarrow> int \<Rightarrow> msg" where
  "ex_msg t i = \<lparr>time = t, sender_user_id = Some ''10001'', message_id = Some i, message = []\<rparr>"

definition ex_handler :: "int \<Rightarrow> int \<Rightarrow> handler" where
  "ex_handler r m = \<lparr>bot_qq_id = None, max_query_rounds = r, max_messages = m\<rparr>"

definition ex_source_c1 :: message_source where
  "ex_source_c1 n cursor =
     (if n < 2 then Invalid
      else Page [Msg (ex_msg 1704067100 7), Msg (ex_msg 1704067150 8)])"

definition ex_source_c2 :: message_source where
  "ex_source_c2 n cursor =
     (if n = 0
      then Page [Msg (ex_msg 1704067100 21), Msg (ex_msg 1703900000 20)]
      else Page [])"

definition ex_source_c4 :: message_source where
  "ex_source_c4 n cursor = Page [Msg (ex_msg 1704067200 5)]"

definition ex_state_two_failures :: fetch_state where
  "ex_state_two_failures =
     \<lparr>messages = [], message_seq = 0, query_rounds = 0, consecutive_failures = 2,
      requests = 0\<rparr>"

definition ex_source_c6 :: message_source where
  "ex_source_c6 n cursor =
     (if n = 0
      then Page [Msg (ex_msg 1703900000 30), Msg (ex_msg 1704067100 31)]
      else Page [])"

definition ex_source_not_iterable :: message_source where
  "ex_source_not_iterable n cursor = NotIterable"

text \<open>A page whose only message is inside the window and has no \<open>"message_id"\<close> key.\<close>

definition ex_source_no_id :: message_source where
  "ex_source_no_id n cursor =
     Page [Msg \<lparr>time = 1704067100, sender_user_id = Some ''10001'', message_id = None,
                message = []\<rparr>]"

definition ex_source_cancelled :: message_source where
  "ex_source_cancelled n cursor =
     (if n = 0 then Page [Msg (ex_msg 1704067100 41)] else Raises (BaseExc CancelledError))"

definition ex_source_five_failures :: message_source where
  "ex_source_five_failures n cursor = (if n < 5 then NotIterable else Page [])"

definition ex_str_lower :: "(string \<times> string) list \<Rightarrow> string" where
  "ex_str_lower d = concat (map (\<lambda>kv. fst kv @ '': '' @ snd kv @ '', '') d)"

text \<open>A visualizer that counts its calls and returns the count with the number of messages.\<close>

definition ex_visualizer :: "nat \<Rightarrow> msg list \<Rightarrow> (raised + nat \<times> nat) \<times> nat" where
  "ex_visualizer calls msgs = (Inr (calls, length msgs), calls + 1)"

definition ex_msg_hour :: "nat \<Rightarrow> msg" where
  "ex_msg_hour h = \<lparr>time = int h * 3600, sender_user_id = Some ''10001'', message_id = Some 1,
                     message = []\<rparr>"

definition ex_messages_c3 :: "msg list" where
  "ex_messages_c3 = map ex_msg_hour [14, 9, 14, 9, 14, 9, 14, 9, 14, 9, 3]"

definition ex_messages_c3w :: "msg list" where
  "ex_messages_c3w = map ex_msg_hour [9, 14, 9, 14, 3, 9, 14, 9, 14, 9, 14]"

definition ex_stats_c3 :: "string \<Rightarrow> GroupStatistics" where
  "ex_stats_c3 period =
     \<lparr>message_count = 11, total_characters = 0, participant_count = 1,
      most_active_period = period, golden_quotes = [], emoji_count = 0,
      emoji_statistics = EmojiStatistics_init, token_usage = TokenUsage_init\<rparr>"

definition ex_emoji_message :: msg where
  "ex_emoji_message =
     \<lparr>time = 1704067100, sender_user_id = Some ''10002'', message_id = Some 2,
      message = [\<lparr>ctype = ''text'', cdata = [(''text'', ''hello'')]\<rparr>,
                 \<lparr>ctype = ''face'', cdata = [(''id'', ''14'')]\<rparr>,
                 \<lparr>ctype = ''face'', cdata = [(''id'', ''14'')]\<rparr>,
                 \<lparr>ctype = ''mface'', cdata = [(''emoji_id'', ''ab'')]\<rparr>,
                 \<lparr>ctype = ''image'', cdata = [(''summary'', marker_sticker), (''file'', ''a.gif'')]\<rparr>,
                 \<lparr>ctype = ''image'', cdata = [(''file'', ''b.png'')]\<rparr>,
                 \<lparr>ctype = ''video'', cdata = [(''file'', ''emoji.mp4'')]\<rparr>]\<rparr>"

definition ex_stats_c10 :: GroupStatistics where
  "ex_stats_c10 =
     \<lparr>message_count = 1, total_characters = 5, participant_count = 1,
      most_active_period = ''23:00-00:00'', golden_quotes = [], emoji_count = 5,
      emoji_statistics =
        \<lparr>face_count = 2, mface_count = 2, bface_count = 0, sface_count = 0,
         other_emoji_count = 1,
         face_details = [(''face_14'', 2), (''mface_ab'', 1), (''animated_a.gif'', 1)]\<rparr>,
      token_usage = TokenUsage_init\<rparr>"

definition ex_analyzer :: "(string, string, string) analyzer" where
  "ex_analyzer =
     \<lparr>get_data_type = Inr ''topics'', get_max_count = Inr 2,
      get_max_tokens = Inr default_max_tokens, get_temperature = Inr default_temperature,
      build_prompt = (\<lambda>data. Inr (''summarise: '' @ data)),
      extract_with_regex =
        (\<lambda>result_text max_count.
           Inr (take (nat max_count) (filter (\<lambda>w. w \<noteq> []) [result_text, result_text, result_text]))),
      create_data_objects = (\<lambda>data_list. Inr (map (\<lambda>d. ''topic '' @ d) data_list))\<rparr>"

definition ex_utils :: "string option \<Rightarrow> (string, string) llm_utils" where
  "ex_utils reply =
     \<lparr>call_provider_with_retry = (\<lambda>prompt max_tokens temperature umo. Inr reply),
      extract_token_usage =
        (\<lambda>response. Inr [(''prompt_tokens'', 10), (''completion_tokens'', 5),
                          (''total_tokens'', 15)]),
      extract_response_text = (\<lambda>response. Inr response),
      parse_json_response =
        (\<lambda>result_text data_type. Inr (False, [], ''no JSON array found''))\<rparr>"

definition ex_utils_raising :: "(string, string) llm_utils" where
  "ex_utils_raising =
     \<lparr>call_provider_with_retry = (\<lambda>prompt max_tokens temperature umo. Inr (Some ''x'')),
      extract_token_usage = (\<lambda>response. Inr [(''prompt_tokens'', 10)]),
      extract_response_text = (\<lambda>response. Inr response),
      parse_json_response =
        (\<lambda>result_text data_type. Inr (False, [], ''no JSON array found''))\<rparr>"

text \<open>A provider call that is cancelled while it is awaited.\<close>

definition ex_utils_cancelled :: "(string, string) llm_utils" where
  "ex_utils_cancelled =
     \<lparr>call_provider_with_retry =
        (\<lambda>prompt max_tokens temperature umo. Inl (BaseExc CancelledError)),
      extract_token_usage =
        (\<lambda>response. Inr [(''prompt_tokens'', 10), (''completion_tokens'', 5),
                          (''total_tokens'', 15)]),
      extract_response_text = (\<lambda>response. Inr response),
      parse_json_response =
        (\<lambda>result_text data_type. Inr (False, [], ''no JSON array found''))\<rparr>"

section \<open>Properties of fetch_group_messages\<close>

lemmas ex_defs = fromtimestamp_utc_def ex_now_def ex_msg_def ex_handler_def datetime_max_def
  is_bot_sender_def

lemmas run_defs = fetch_group_messages_def page_requests_def counted_rounds_def fetch_run_def
  outcome_result_def outcome_requests_def outcome_rounds_def loop_outcome_def
  timedelta_days_def datetime_sub_def fetch_loop.simps loop_guard_def fetch_round_def
  count_failure_def max_failures_def Let_def

text \<open>What holds of the result of a loop that ends, from an invariant of its rounds.\<close>

lemma fetch_loop_result_rule:
  assumes run: "fetch_loop f self src s e st = Some y" and init: "I st"
    and cont: "\<And>st. I st \<Longrightarrow> loop_guard self st
                 \<Longrightarrow> snd (fetch_round f self src s e st) = Continue
                 \<Longrightarrow> I (fst (fetch_round f self src s e st))"
    and stop: "\<And>st. I st \<Longrightarrow> loop_guard self st
                 \<Longrightarrow> snd (fetch_round f self src s e st) = Break
                 \<Longrightarrow> Q (fst (fetch_round f self src s e st), None)"
    and leave: "\<And>st b. I st \<Longrightarrow> loop_guard self st
                 \<Longrightarrow> snd (fetch_round f self src s e st) = Propagate b
                 \<Longrightarrow> Q (fst (fetch_round f self src s e st), Some b)"
    and exit: "\<And>st. I st \<Longrightarrow> \<not> loop_guard self st \<Longrightarrow> Q (st, None)"
  shows "Q y"
proof -
  have "(a = f \<and> b = self \<and> c = src \<and> d = s \<and> e' = e) \<longrightarrow> I st0 \<longrightarrow> Q y"
    if "fetch_loop a b c d e' st0 = Some y" for a b c d e' st0 y
  proof (rule fetch_loop.raw_induct[where P = "\<lambda>a b c d e' st0 y.
            (a = f \<and> b = self \<and> c = src \<and> d = s \<and> e' = e) \<longrightarrow> I st0 \<longrightarrow> Q y", OF _ that])
    fix loop a b c d e' st0 y
    assume IH: "\<And>a b c d e' st0 y. loop a b c d e' st0 = Some y \<Longrightarrow>
                  (a = f \<and> b = self \<and> c = src \<and> d = s \<and> e' = e) \<longrightarrow> I st0 \<longrightarrow> Q y"
      and eq: "(if loop_guard b st0
                then case snd (fetch_round a b c d e' st0) of
                       Continue \<Rightarrow> loop a b c d e' (fst (fetch_round a b c d e' st0))
                     | Break \<Rightarrow> Some (fst (fetch_round a b c d e' st0), None)
                     | Propagate x \<Rightarrow> Some (fst (fetch_round a b c d e' st0), Some x)
                else Some (st0, None)) = Some y"
    show "(a = f \<and> b = self \<and> c = src \<and> d = s \<and> e' = e) \<longrightarrow> I st0 \<longrightarrow> Q y"
    proof (intro impI)
      assume same: "a = f \<and> b = self \<and> c = src \<and> d = s \<and> e' = e" and i: "I st0"
      show "Q y"
      proof (cases "loop_guard self st0")
        case False
        with eq same have "y = (st0, None)" by simp
        with exit[OF i False] show ?thesis by simp
      next
        case True
        show ?thesis
        proof (cases "snd (fetch_round f self src s e st0)")
          case Break
          with eq same True have "y = (fst (fetch_round f self src s e st0), None)" by simp
          with stop[OF i True Break] show ?thesis by simp
        next
          case (Propagate x)
          with eq same True have "y = (fst (fetch_round f self src s e st0), Some x)" by simp
          with leave[OF i True Propagate] show ?thesis by simp
        next
          case c: Continue
          with eq same True
          have "loop f self src s e (fst (fetch_round f self src s e st0)) = Some y" by simp
          from IH[OF this] cont[OF i True c] show ?thesis by simp
        qed
      qed
    qed
  qed
  with run init show ?thesis by blast
qed

text \<open>The same for a property of the final state alone.\<close>

lemma fetch_loop_rule:
  assumes run: "fetch_loop f self src s e st = Some (st', x)" and init: "I st"
    and cont: "\<And>st. I st \<Longrightarrow> loop_guard self st
                 \<Longrightarrow> snd (fetch_round f self src s e st) = Continue
                 \<Longrightarrow> I (fst (fetch_round f self src s e st))"
    and stop: "\<And>st. I st \<Longrightarrow> loop_guard self st
                 \<Longrightarrow> snd (fetch_round f self src s e st) \<noteq> Continue
                 \<Longrightarrow> Q (fst (fetch_round f self src s e st))"
    and exit: "\<And>st. I st \<Longrightarrow> \<not> loop_guard self st \<Longrightarrow> Q st"
  shows "Q st'"
proof -
  from run init have "Q (fst (st', x))"
    by (rule fetch_loop_result_rule[where I = I and Q = "\<lambda>y. Q (fst y)"])
       (simp_all add: cont stop exit)
  then show ?thesis by simp
qed

lemma filter_round_length:
  "filter_round f self s e items (ms, v, old) = (ms', v', old') \<Longrightarrow>
   length ms' + v = length ms + v'"
  by (induction f self s e items "(ms, v, old)" arbitrary: ms v old rule: filter_round.induct)
     (auto split: option.splits if_splits)

lemma filter_round_le:
  "filter_round f self s e items (ms, v, old) = (ms', v', old') \<Longrightarrow>
   length ms' \<le> length ms + length items"
proof (induction items arbitrary: ms v old)
  case Nil
  then show ?case by simp
next
  case (Cons it items)
  show ?case
  proof (cases it)
    case NotDict
    with Cons.prems have "filter_round f self s e items (ms, v, old) = (ms', v', old')" by simp
    from Cons.IH[OF this] show ?thesis by simp
  next
    case (Msg m)
    with Cons.prems obtain ms1 v1 old1 where
      step: "filter_round f self s e items (ms1, v1, old1) = (ms', v', old')"
      and l: "length ms1 \<le> length ms + 1"
      by (auto split: option.splits if_splits)
    from Cons.IH[OF step] l show ?thesis by simp
  qed
qed

lemma in_windowI: "f (time m) = Some t \<Longrightarrow> s \<le> t \<Longrightarrow> t \<le> e \<Longrightarrow> in_window f s e m"
  by (simp add: in_window_def)

lemma filter_round_window:
  "filter_round f self s e items (ms, v, old) = (ms', v', old') \<Longrightarrow>
   list_all (in_window f s e) ms \<Longrightarrow> list_all (in_window f s e) ms'"
proof (induction items arbitrary: ms v old)
  case Nil
  then show ?case by simp
next
  case (Cons it items)
  show ?case
  proof (cases it)
    case NotDict
    with Cons.prems have "filter_round f self s e items (ms, v, old) = (ms', v', old')" by simp
    from Cons.IH[OF this Cons.prems(2)] show ?thesis .
  next
    case (Msg m)
    with Cons.prems obtain ms1 v1 old1 where
      step: "filter_round f self s e items (ms1, v1, old1) = (ms', v', old')"
      and l: "list_all (in_window f s e) ms1"
      by (auto simp: in_windowI split: option.splits if_splits)
    from Cons.IH[OF step l] show ?thesis .
  qed
qed

text \<open>A round that goes on brings the loop nearer to its end, unless its page cannot be iterated.\<close>

lemma fetch_round_continue_measure:
  assumes "loop_guard self st" and "snd (fetch_round f self src s e st) = Continue"
    and "src (requests st) (message_seq st) \<noteq> NotIterable"
  shows "4 * nat (max_messages self - int (length (messages (fst (fetch_round f self src s e st)))))
           + nat (3 - consecutive_failures (fst (fetch_round f self src s e st)))
         < 4 * nat (max_messages self - int (length (messages st)))
           + nat (3 - consecutive_failures st)"
proof (cases "src (requests st) (message_seq st)")
  case (Raises x)
  with assms show ?thesis
    by (auto simp: fetch_round_def count_failure_def max_failures_def Let_def split: raised.splits if_splits)
next
  case Invalid
  with assms show ?thesis
    by (auto simp: fetch_round_def count_failure_def max_failures_def Let_def split: raised.splits if_splits)
next
  case NotIterable
  with assms show ?thesis by simp
next
  case (Page items)
  obtain ms v old where fr:
    "filter_round f self s e items (messages st, 0, None) = (ms, v, old)"
    by (cases "filter_round f self s e items (messages st, 0, None)") auto
  from filter_round_length[OF fr] have len: "length ms = length (messages st) + v" by simp
  from assms Page fr have "v \<noteq> 0"
    by (auto simp: fetch_round_def Let_def split: if_splits)
  with len have grow: "length (messages st) < length ms" by simp
  from assms(1) have "int (length (messages st)) < max_messages self"
    by (simp add: loop_guard_def)
  with grow have big: "4 * nat (max_messages self - int (length ms)) + 4
                  \<le> 4 * nat (max_messages self - int (length (messages st)))"
    by simp
  from assms Page fr
  have m: "messages (fst (fetch_round f self src s e st)) = ms"
    and c: "0 \<le> consecutive_failures (fst (fetch_round f self src s e st))"
    by (auto simp: fetch_round_def count_failure_def Let_def split: if_splits option.splits)
  show ?thesis unfolding m using big c by linarith
qed

text \<open>The loop ends on every source that never answers with a value that cannot be iterated.\<close>

lemma fetch_loop_returns:
  assumes "\<forall>n c. src n c \<noteq> NotIterable"
  shows "\<exists>y. fetch_loop f self src s e st = Some y"
proof (induction st rule: measure_induct_rule[where f = "\<lambda>st.
         4 * nat (max_messages self - int (length (messages st)))
         + nat (3 - consecutive_failures st)"])
  case (less st)
  show ?case
  proof (cases "loop_guard self st")
    case False
    then show ?thesis by (simp add: fetch_loop.simps[of f self src s e st])
  next
    case True
    show ?thesis
    proof (cases "snd (fetch_round f self src s e st)")
      case Break
      with True show ?thesis by (simp add: fetch_loop.simps[of f self src s e st])
    next
      case (Propagate b)
      with True show ?thesis by (simp add: fetch_loop.simps[of f self src s e st])
    next
      case c: Continue
      from assms have "src (requests st) (message_seq st) \<noteq> NotIterable" by blast
      from less.IH[OF fetch_round_continue_measure[OF True c this]] True c show ?thesis
        by (simp add: fetch_loop.simps[of f self src s e st])
    qed
  qed
qed

lemma fetch_round_requests:
  "requests (fst (fetch_round f self src s e st)) = requests st + 1"
  by (simp add: fetch_round_def count_failure_def Let_def
           split: response.splits raised.splits prod.splits option.splits if_splits)

lemma fetch_round_rounds:
  assumes "loop_guard self st"
  shows "query_rounds (fst (fetch_round f self src s e st)) \<le> max_query_rounds self"
  using assms
  by (simp add: fetch_round_def count_failure_def Let_def loop_guard_def
           split: response.splits raised.splits prod.splits option.splits if_splits)

lemma fetch_round_window:
  assumes "list_all (in_window f s e) (messages st)"
  shows "list_all (in_window f s e) (messages (fst (fetch_round f self src s e st)))"
proof (cases "src (requests st) (message_seq st)")
  case (Raises x)
  with assms show ?thesis
    by (auto simp: fetch_round_def count_failure_def Let_def split: raised.splits if_splits)
next
  case Invalid
  with assms show ?thesis
    by (auto simp: fetch_round_def count_failure_def Let_def split: raised.splits if_splits)
next
  case NotIterable
  with assms show ?thesis
    by (auto simp: fetch_round_def count_failure_def Let_def split: raised.splits if_splits)
next
  case (Page items)
  obtain ms v old where fr:
    "filter_round f self s e items (messages st, 0, None) = (ms, v, old)"
    by (cases "filter_round f self s e items (messages st, 0, None)") auto
  from filter_round_window[OF fr assms] have "list_all (in_window f s e) ms" .
  with assms Page fr show ?thesis
    by (simp add: fetch_round_def count_failure_def Let_def split: option.splits)
qed

lemma fetch_round_length:
  assumes "loop_guard self st"
    and "\<forall>n c items. src n c = Page items \<longrightarrow> length items \<le> P"
  shows "int (length (messages (fst (fetch_round f self src s e st)))) < max_messages self + int P"
proof (cases "src (requests st) (message_seq st)")
  case (Raises x)
  with assms show ?thesis
    by (auto simp: fetch_round_def count_failure_def Let_def loop_guard_def split: raised.splits if_splits)
next
  case Invalid
  with assms show ?thesis
    by (auto simp: fetch_round_def count_failure_def Let_def loop_guard_def split: raised.splits if_splits)
next
  case NotIterable
  with assms show ?thesis
    by (auto simp: fetch_round_def count_failure_def Let_def loop_guard_def split: raised.splits if_splits)
next
  case (Page items)
  obtain ms v old where fr:
    "filter_round f self s e items (messages st, 0, None) = (ms, v, old)"
    by (cases "filter_round f self s e items (messages st, 0, None)") auto
  from assms(2) Page have "length items \<le> P" by blast
  with filter_round_le[OF fr] have "length ms \<le> length (messages st) + P" by simp
  with assms(1) have *: "int (length ms) < max_messages self + int P"
    by (simp add: loop_guard_def)
  from assms(1) have "int (length (messages st)) < max_messages self + int P"
    by (simp add: loop_guard_def)
  with * Page fr show ?thesis
    by (simp add: fetch_round_def count_failure_def Let_def split: option.splits)
qed

lemma fetch_round_budget_continue:
  assumes "budget_inv self B st" and "loop_guard self st"
    and "snd (fetch_round f self src s e st) = Continue"
    and "src (requests st) (message_seq st) \<noteq> NotIterable"
  shows "budget_inv self B (fst (fetch_round f self src s e st))"
proof (cases "src (requests st) (message_seq st)")
  case (Raises x)
  with assms show ?thesis
    by (auto simp: fetch_round_def count_failure_def Let_def loop_guard_def budget_inv_def
          request_budget_def max_failures_def split: raised.splits if_splits)
next
  case Invalid
  with assms show ?thesis
    by (auto simp: fetch_round_def count_failure_def Let_def loop_guard_def budget_inv_def
          request_budget_def max_failures_def split: raised.splits if_splits)
next
  case NotIterable
  with assms show ?thesis by simp
next
  case (Page items)
  obtain ms v old where fr:
    "filter_round f self s e items (messages st, 0, None) = (ms, v, old)"
    by (cases "filter_round f self s e items (messages st, 0, None)") auto
  from filter_round_length[OF fr] have len: "length ms = length (messages st) + v" by simp
  from assms Page fr have "v \<noteq> 0"
    by (auto simp: fetch_round_def Let_def split: if_splits)
  with len have grow: "int (length (messages st)) + 1 \<le> int (length ms)" by simp
  from assms Page fr grow show ?thesis
    by (auto simp: fetch_round_def count_failure_def Let_def loop_guard_def budget_inv_def
          request_budget_def max_failures_def split: option.splits if_splits)
qed

lemma fetch_round_budget_stop:
  assumes "budget_inv self B st" and "loop_guard self st"
  shows "int (requests (fst (fetch_round f self src s e st))) \<le> B"
  using assms
  by (simp add: fetch_round_requests loop_guard_def budget_inv_def request_budget_def)

lemma budget_exit:
  assumes "budget_inv self B st"
  shows "int (requests st) \<le> B"
  using assms
  by (auto simp: budget_inv_def request_budget_def split: if_splits)

lemma fetch_loop_requests:
  assumes "fetch_loop f self src s e st = Some (st', x)" and "budget_inv self B st"
    and "\<forall>n c. src n c \<noteq> NotIterable"
  shows "int (requests st') \<le> B"
  using assms(1,2)
  by (rule fetch_loop_rule[where I = "budget_inv self B"])
     (use assms(3) in \<open>auto intro: fetch_round_budget_continue fetch_round_budget_stop budget_exit\<close>)

lemma fetch_round_round_budget_continue:
  assumes "round_budget_inv self B st" and "loop_guard self st"
    and "snd (fetch_round f self src s e st) = Continue"
    and heads: "\<forall>n c items. src n c = Page items \<and> items \<noteq> [] \<longrightarrow> first_message_id items \<noteq> None"
    and "src (requests st) (message_seq st) \<noteq> NotIterable"
  shows "round_budget_inv self B (fst (fetch_round f self src s e st))"
proof (cases "src (requests st) (message_seq st)")
  case (Raises x)
  with assms(1-3) show ?thesis
    by (auto simp: fetch_round_def count_failure_def Let_def loop_guard_def round_budget_inv_def
          round_budget_def max_failures_def split: raised.splits if_splits)
next
  case Invalid
  with assms(1-3) show ?thesis
    by (auto simp: fetch_round_def count_failure_def Let_def loop_guard_def round_budget_inv_def
          round_budget_def max_failures_def split: raised.splits if_splits)
next
  case NotIterable
  with assms(5) show ?thesis by simp
next
  case (Page items)
  obtain ms v old where fr:
    "filter_round f self s e items (messages st, 0, None) = (ms, v, old)"
    by (cases "filter_round f self s e items (messages st, 0, None)") auto
  from assms(3) Page have ne: "items \<noteq> []"
    by (auto simp: fetch_round_def Let_def)
  with heads Page obtain mid where "first_message_id items = Some mid" by blast
  with assms(1-3) Page fr ne show ?thesis
    by (auto simp: fetch_round_def count_failure_def Let_def loop_guard_def round_budget_inv_def
          round_budget_def max_failures_def split: if_splits)
qed

lemma fetch_round_round_budget_stop:
  assumes "round_budget_inv self B st" and "loop_guard self st"
  shows "int (requests (fst (fetch_round f self src s e st))) \<le> B"
  using assms
  by (simp add: fetch_round_requests loop_guard_def round_budget_inv_def round_budget_def)

lemma round_budget_exit:
  assumes "round_budget_inv self B st"
  shows "int (requests st) \<le> B"
  using assms
  by (auto simp: round_budget_inv_def round_budget_def split: if_splits)

lemma fetch_loop_requests_rounds:
  assumes "fetch_loop f self src s e st = Some (st', x)" and "round_budget_inv self B st"
    and "\<forall>n c items. src n c = Page items \<and> items \<noteq> [] \<longrightarrow> first_message_id items \<noteq> None"
    and "\<forall>n c. src n c \<noteq> NotIterable"
  shows "int (requests st') \<le> B"
  using assms(1,2)
  by (rule fetch_loop_rule[where I = "round_budget_inv self B"])
     (use assms(4) in \<open>auto intro: fetch_round_round_budget_continue[OF _ _ _ assms(3)]
        fetch_round_round_budget_stop round_budget_exit\<close>)

lemma fetch_loop_rounds:
  assumes "fetch_loop f self src s e st = Some (st', x)" and "query_rounds st \<le> max_query_rounds self"
  shows "query_rounds st' \<le> max_query_rounds self"
  using assms
  by (rule fetch_loop_rule[where I = "\<lambda>st. query_rounds st \<le> max_query_rounds self"])
     (auto intro: fetch_round_rounds)

lemma fetch_loop_length:
  assumes "fetch_loop f self src s e st = Some (st', x)"
    and "int (length (messages st)) < max_messages self + int P"
    and "\<forall>n c items. src n c = Page items \<longrightarrow> length items \<le> P"
  shows "int (length (messages st')) < max_messages self + int P"
  using assms(1,2)
  by (rule fetch_loop_rule[where I = "\<lambda>st. int (length (messages st)) < max_messages self + int P"])
     (auto intro: fetch_round_length[OF _ assms(3)])

lemma fetch_loop_window:
  assumes "fetch_loop f self src s e st = Some (st', x)"
    and "list_all (in_window f s e) (messages st)"
  shows "list_all (in_window f s e) (messages st')"
  using assms
  by (rule fetch_loop_rule[where I = "\<lambda>st. list_all (in_window f s e) (messages st)"])
     (auto intro: fetch_round_window)

lemma fetch_loop_requests_mono:
  assumes "fetch_loop f self src s e st = Some (st', x)" and "r \<le> requests st"
  shows "r \<le> requests st'"
  using assms
  by (rule fetch_loop_rule[where I = "\<lambda>st. r \<le> requests st"])
     (simp_all add: fetch_round_requests)

lemma fetch_loop_first_request:
  assumes "fetch_loop f self src s e st = Some (st', x)" and "loop_guard self st"
  shows "requests st + 1 \<le> requests st'"
proof (cases "snd (fetch_round f self src s e st)")
  case Continue
  with assms
  have "fetch_loop f self src s e (fst (fetch_round f self src s e st)) = Some (st', x)"
    by (simp add: fetch_loop.simps[of f self src s e st])
  then show ?thesis
    by (rule fetch_loop_requests_mono) (simp add: fetch_round_requests)
next
  case Break
  with assms show ?thesis
    by (auto simp: fetch_loop.simps[of f self src s e st] fetch_round_requests)
next
  case (Propagate b)
  with assms show ?thesis
    by (auto simp: fetch_loop.simps[of f self src s e st] fetch_round_requests)
qed

text \<open>A call either returns before the loop or ends as its loop does.\<close>

lemma fetch_run_cases:
  obtains (early) "fetch_run f now self src b g days = Some ReturnedEarly"
  | (loop) "fetch_run f now self src b g days =
             map_option loop_outcome
               (fetch_loop f self src (now - days * 86400000000) now
                  \<lparr>messages = [], message_seq = 0, query_rounds = 0,
                   consecutive_failures = 0, requests = 0\<rparr>)"
proof (cases "b \<and> g \<noteq> [] \<and> \<not> 999999999 < abs days
              \<and> 0 \<le> now - days * 86400000000 \<and> now - days * 86400000000 \<le> datetime_max")
  case True
  then have "fetch_run f now self src b g days =
             map_option loop_outcome
               (fetch_loop f self src (now - days * 86400000000) now
                  \<lparr>messages = [], message_seq = 0, query_rounds = 0,
                   consecutive_failures = 0, requests = 0\<rparr>)"
    by (simp add: fetch_run_def timedelta_days_def datetime_sub_def Let_def)
  then show thesis by (rule loop)
next
  case False
  then have "fetch_run f now self src b g days = Some ReturnedEarly"
    by (auto simp: fetch_run_def timedelta_days_def datetime_sub_def Let_def)
  then show thesis by (rule early)
qed

lemma fetch_messages_in_window:
  assumes "fetch_group_messages f now self source b g days = Some (Inr msgs)"
  shows "list_all (in_window f (now - days * 86400000000) now) msgs"
proof (cases rule: fetch_run_cases[of f now self source b g days])
  case early
  with assms show ?thesis by (simp add: fetch_group_messages_def outcome_result_def)
next
  case loop
  with assms obtain st' x where
    run: "fetch_loop f self source (now - days * 86400000000) now
            \<lparr>messages = [], message_seq = 0, query_rounds = 0,
             consecutive_failures = 0, requests = 0\<rparr> = Some (st', x)"
    and m: "msgs = messages st'"
    by (auto simp: fetch_group_messages_def outcome_result_def loop_outcome_def
          split: option.splits)
  from fetch_loop_window[OF run] m show ?thesis by simp
qed

text \<open>On a source whose every answer cannot be iterated the loop never ends.\<close>

lemma fetch_loop_never_ends:
  assumes "\<forall>n c. src n c = NotIterable" and "loop_guard self st"
  shows "fetch_loop f self src s e st = None"
proof (rule ccontr)
  assume "fetch_loop f self src s e st \<noteq> None"
  then obtain st' x where run: "fetch_loop f self src s e st = Some (st', x)" by auto
  from run assms(2) have False
  proof (rule fetch_loop_rule[where I = "loop_guard self" and Q = "\<lambda>st. False"])
    fix st assume g: "loop_guard self st"
    from assms(1) have r: "fetch_round f self src s e st =
        (st\<lparr>requests := requests st + 1, consecutive_failures := 1\<rparr>, Continue)"
      by (simp add: fetch_round_def count_failure_def max_failures_def Let_def)
    from g r show "loop_guard self (fst (fetch_round f self src s e st))"
      by (simp add: loop_guard_def)
  next
    fix st assume "snd (fetch_round f self src s e st) \<noteq> Continue"
    moreover from assms(1) have "fetch_round f self src s e st =
        (st\<lparr>requests := requests st + 1, consecutive_failures := 1\<rparr>, Continue)"
      by (simp add: fetch_round_def count_failure_def max_failures_def Let_def)
    ultimately show False by simp
  next
    fix st assume "loop_guard self st" and "\<not> loop_guard self st"
    then show False by simp
  qed
  then show False .
qed

text \<open>
  C1 as stated fails. With \<open>max_rounds = 1\<close> and \<open>max_messages = 1\<close>, a source that
  answers two invalid results and then a page of two messages inside the window is asked
  three times, and two messages are returned: more requests than \<open>max_rounds\<close> and more
  messages than \<open>max_messages\<close>.
\<close>

theorem C1_counterexample:
  "0 < max_query_rounds (ex_handler 1 1) \<and> 0 < max_messages (ex_handler 1 1)
   \<and> page_requests fromtimestamp_utc ex_now (ex_handler 1 1) ex_source_c1 True ''g'' 1 = Some 3
   \<and> \<not> int 3 \<le> max_query_rounds (ex_handler 1 1)
   \<and> fetch_group_messages fromtimestamp_utc ex_now (ex_handler 1 1) ex_source_c1 True ''g'' 1
       = Some (Inr [ex_msg 1704067100 7, ex_msg 1704067150 8])
   \<and> \<not> int (length [ex_msg 1704067100 7, ex_msg 1704067150 8]) \<le> max_messages (ex_handler 1 1)"
  by (simp add: run_defs ex_defs ex_source_c1_def)

text \<open>
  C1, amended. For positive \<open>max_rounds\<close> and \<open>max_messages\<close>: a call that ends has
  counted at most \<open>max_rounds\<close> completed rounds, and a call that returns returns fewer
  than \<open>max_messages + P\<close> messages when no page holds more than \<open>P\<close> messages. On a
  source that never answers with a value that cannot be iterated, the call ends (it
  returns a list, unless an exception that is not an \<open>Exception\<close> leaves it) after at
  most \<open>3 * max_messages\<close> page requests, and at most \<open>3 * max_rounds\<close> when every
  non-empty page starts with a message that has an id.
\<close>

theorem C1_fetch_bounds:
  assumes "0 < max_query_rounds self" and "0 < max_messages self"
  shows "(\<forall>r. counted_rounds f now self source b g days = Some r \<longrightarrow> r \<le> max_query_rounds self)
       \<and> (\<forall>msgs P. fetch_group_messages f now self source b g days = Some (Inr msgs)
                    \<and> (\<forall>n c items. source n c = Page items \<longrightarrow> length items \<le> P)
             \<longrightarrow> int (length msgs) < max_messages self + int P)
       \<and> ((\<forall>n c. source n c \<noteq> NotIterable) \<longrightarrow>
             (\<exists>res. fetch_group_messages f now self source b g days = Some res)
           \<and> (\<exists>n. page_requests f now self source b g days = Some n
                  \<and> int n \<le> 3 * max_messages self
                  \<and> ((\<forall>n c items. source n c = Page items \<and> items \<noteq> []
                                    \<longrightarrow> first_message_id items \<noteq> None)
                      \<longrightarrow> int n \<le> 3 * max_query_rounds self)))"
proof (cases rule: fetch_run_cases[of f now self source b g days])
  case early
  with assms show ?thesis
    by (simp add: counted_rounds_def page_requests_def fetch_group_messages_def
          outcome_rounds_def outcome_requests_def outcome_result_def)
next
  case loop
  let ?st0 = "\<lparr>messages = [], message_seq = 0, query_rounds = 0,
               consecutive_failures = 0, requests = 0\<rparr>"
  let ?run = "fetch_loop f self source (now - days * 86400000000) now ?st0"
  have rounds: "query_rounds st' \<le> max_query_rounds self" if "?run = Some (st', x)" for st' x
    using that assms(1) by (intro fetch_loop_rounds[OF that]) simp
  have len: "int (length (messages st')) < max_messages self + int P"
    if "?run = Some (st', x)"
      and "\<forall>n c items. source n c = Page items \<longrightarrow> length items \<le> P"
    for st' x P
    using assms(2) by (intro fetch_loop_length[OF that(1) _ that(2)]) simp
  have reqs: "int (requests st') \<le> 3 * max_messages self"
    if "?run = Some (st', x)" and "\<forall>n c. source n c \<noteq> NotIterable" for st' x
    using assms(2)
    by (intro fetch_loop_requests[OF that(1) _ that(2)])
       (simp add: budget_inv_def request_budget_def)
  have reqs_rounds: "int (requests st') \<le> 3 * max_query_rounds self"
    if "?run = Some (st', x)" and "\<forall>n c. source n c \<noteq> NotIterable"
      and "\<forall>n c items. source n c = Page items \<and> items \<noteq> [] \<longrightarrow> first_message_id items \<noteq> None"
    for st' x
    using assms(1)
    by (intro fetch_loop_requests_rounds[OF that(1) _ that(3) that(2)])
       (simp add: round_budget_inv_def round_budget_def)
  have returns: "\<exists>st' x. ?run = Some (st', x)" if "\<forall>n c. source n c \<noteq> NotIterable"
    using fetch_loop_returns[OF that, of f self "now - days * 86400000000" now ?st0] by auto
  show ?thesis
  proof (intro conjI allI impI)
    fix r assume "counted_rounds f now self source b g days = Some r"
    with loop obtain st' x where run: "?run = Some (st', x)" and r: "r = query_rounds st'"
      by (auto simp: counted_rounds_def outcome_rounds_def loop_outcome_def
            split: option.splits)
    from rounds[OF run] r show "r \<le> max_query_rounds self" by simp
  next
    fix msgs P
    assume "fetch_group_messages f now self source b g days = Some (Inr msgs)
            \<and> (\<forall>n c items. source n c = Page items \<longrightarrow> length items \<le> P)"
    then have m: "fetch_group_messages f now self source b g days = Some (Inr msgs)"
      and p: "\<forall>n c items. source n c = Page items \<longrightarrow> length items \<le> P"
      by blast+
    from m loop obtain st' x where run: "?run = Some (st', x)" and ms: "msgs = messages st'"
      by (auto simp: fetch_group_messages_def outcome_result_def loop_outcome_def
            split: option.splits)
    from len[OF run p] ms show "int (length msgs) < max_messages self + int P" by simp
  next
    assume "\<forall>n c. source n c \<noteq> NotIterable"
    from returns[OF this] obtain st' x where run: "?run = Some (st', x)" by blast
    with loop show "\<exists>res. fetch_group_messages f now self source b g days = Some res"
      by (simp add: fetch_group_messages_def)
  next
    assume ni: "\<forall>n c. source n c \<noteq> NotIterable"
    from returns[OF ni] obtain st' x where run: "?run = Some (st', x)" by blast
    with loop have "page_requests f now self source b g days = Some (requests st')"
      by (simp add: page_requests_def outcome_requests_def loop_outcome_def
            split: option.splits)
    with reqs[OF run ni] reqs_rounds[OF run ni]
    show "\<exists>n. page_requests f now self source b g days = Some n
             \<and> int n \<le> 3 * max_messages self
             \<and> ((\<forall>n c items. source n c = Page items \<and> items \<noteq> []
                               \<longrightarrow> first_message_id items \<noteq> None)
                 \<longrightarrow> int n \<le> 3 * max_query_rounds self)"
      by blast
  qed
qed

text \<open>
  C1, amended, at the input of the counterexample, whose pages hold two messages that have
  ids: one round counted, two messages, three requests. And on a source that answers one
  page and whose second request is cancelled: the call ends with \<open>CancelledError\<close> after
  two requests.
\<close>

theorem C1_fetch_bounds_witness:
  "0 < max_query_rounds (ex_handler 1 1) \<and> 0 < max_messages (ex_handler 1 1)
   \<and> counted_rounds fromtimestamp_utc ex_now (ex_handler 1 1) ex_source_c1 True ''g'' 1 = Some 1
   \<and> 1 \<le> max_query_rounds (ex_handler 1 1)
   \<and> fetch_group_messages fromtimestamp_utc ex_now (ex_handler 1 1) ex_source_c1 True ''g'' 1
       = Some (Inr [ex_msg 1704067100 7, ex_msg 1704067150 8])
   \<and> int (length [ex_msg 1704067100 7, ex_msg 1704067150 8])
       < max_messages (ex_handler 1 1) + int 2
   \<and> page_requests fromtimestamp_utc ex_now (ex_handler 1 1) ex_source_c1 True ''g'' 1 = Some 3
   \<and> int 3 \<le> 3 * max_messages (ex_handler 1 1)
   \<and> int 3 \<le> 3 * max_query_rounds (ex_handler 1 1)
   \<and> fetch_group_messages fromtimestamp_utc ex_now (ex_handler 5 100) ex_source_cancelled
        True ''g'' 1 = Some (Inl CancelledError)
   \<and> page_requests fromtimestamp_utc ex_now (ex_handler 5 100) ex_source_cancelled
        True ''g'' 1 = Some 2
   \<and> int 2 \<le> 3 * max_messages (ex_handler 5 100)
   \<and> int 2 \<le> 3 * max_query_rounds (ex_handler 5 100)"
proof -
  have r: "0 < max_query_rounds (ex_handler 1 1)" and m: "0 < max_messages (ex_handler 1 1)"
    by (simp_all add: ex_handler_def)
  have p: "\<forall>n c items. ex_source_c1 n c = Page items \<longrightarrow> length items \<le> 2"
    by (auto simp: ex_source_c1_def split: if_splits)
  have h: "\<forall>n c items. ex_source_c1 n c = Page items \<and> items \<noteq> []
             \<longrightarrow> first_message_id items \<noteq> None"
    by (auto simp: ex_source_c1_def ex_msg_def split: if_splits)
  have i: "\<forall>n c. ex_source_c1 n c \<noteq> NotIterable"
    by (simp add: ex_source_c1_def)
  have v: "counted_rounds fromtimestamp_utc ex_now (ex_handler 1 1) ex_source_c1 True ''g'' 1
             = Some 1
      \<and> fetch_group_messages fromtimestamp_utc ex_now (ex_handler 1 1) ex_source_c1 True ''g'' 1
          = Some (Inr [ex_msg 1704067100 7, ex_msg 1704067150 8])
      \<and> page_requests fromtimestamp_utc ex_now (ex_handler 1 1) ex_source_c1 True ''g'' 1
          = Some 3"
    by (simp add: run_defs ex_defs ex_source_c1_def)
  have r': "0 < max_query_rounds (ex_handler 5 100)"
    and m': "0 < max_messages (ex_handler 5 100)"
    by (simp_all add: ex_handler_def)
  have i': "\<forall>n c. ex_source_cancelled n c \<noteq> NotIterable"
    by (simp add: ex_source_cancelled_def)
  have h': "\<forall>n c items. ex_source_cancelled n c = Page items \<and> items \<noteq> []
             \<longrightarrow> first_message_id items \<noteq> None"
    by (auto simp: ex_source_cancelled_def ex_msg_def split: if_splits)
  have v': "fetch_group_messages fromtimestamp_utc ex_now (ex_handler 5 100) ex_source_cancelled
              True ''g'' 1 = Some (Inl CancelledError)
      \<and> page_requests fromtimestamp_utc ex_now (ex_handler 5 100) ex_source_cancelled
          True ''g'' 1 = Some 2"
    by (simp add: run_defs ex_defs ex_source_cancelled_def)
  from C1_fetch_bounds[OF r m, of fromtimestamp_utc ex_now ex_source_c1 True "''g''" 1]
    r m p h i v
  have a: "0 < max_query_rounds (ex_handler 1 1) \<and> 0 < max_messages (ex_handler 1 1)
   \<and> counted_rounds fromtimestamp_utc ex_now (ex_handler 1 1) ex_source_c1 True ''g'' 1 = Some 1
   \<and> 1 \<le> max_query_rounds (ex_handler 1 1)
   \<and> fetch_group_messages fromtimestamp_utc ex_now (ex_handler 1 1) ex_source_c1 True ''g'' 1
       = Some (Inr [ex_msg 1704067100 7, ex_msg 1704067150 8])
   \<and> int (length [ex_msg 1704067100 7, ex_msg 1704067150 8])
       < max_messages (ex_handler 1 1) + int 2
   \<and> page_requests fromtimestamp_utc ex_now (ex_handler 1 1) ex_source_c1 True ''g'' 1 = Some 3
   \<and> int 3 \<le> 3 * max_messages (ex_handler 1 1)
   \<and> int 3 \<le> 3 * max_query_rounds (ex_handler 1 1)"
    by simp
  from C1_fetch_bounds[OF r' m', of fromtimestamp_utc ex_now ex_source_cancelled True "''g''" 1]
    i' h' v'
  have b: "int 2 \<le> 3 * max_messages (ex_handler 5 100)
           \<and> int 2 \<le> 3 * max_query_rounds (ex_handler 5 100)"
    by simp
  from a b v' show ?thesis by simp
qed

text \<open>
  C2. Every message returned by a fetch with \<open>days = d\<close> has a timestamp that converts
  to a time between \<open>now - d\<close> days and \<open>now\<close>, both included.
\<close>

theorem C2_window:
  "\<forall>msgs. fetch_group_messages f now self source b g days = Some (Inr msgs) \<longrightarrow>
     (\<forall>m \<in> set msgs. \<exists>t. f (time m) = Some t \<and> now - days * 86400000000 \<le> t \<and> t \<le> now)"
proof (intro allI impI)
  fix msgs assume "fetch_group_messages f now self source b g days = Some (Inr msgs)"
  from fetch_messages_in_window[OF this]
  show "\<forall>m \<in> set msgs. \<exists>t. f (time m) = Some t \<and> now - days * 86400000000 \<le> t \<and> t \<le> now"
    by (auto simp: list_all_iff in_window_def split: option.splits)
qed

text \<open>
  C2 on a page with one message 100 seconds old and one nearly two days old, for one day:
  only the first is returned, and it lies in the window.
\<close>

theorem C2_window_witness:
  "fetch_group_messages fromtimestamp_utc ex_now (ex_handler 5 100) ex_source_c2 True ''g'' 1
     = Some (Inr [ex_msg 1704067100 21])
   \<and> fromtimestamp_utc (time (ex_msg 1704067100 21)) = Some 63839663900000000
   \<and> ex_now - 1 * 86400000000 \<le> 63839663900000000 \<and> 63839663900000000 \<le> ex_now"
  using C2_window[of fromtimestamp_utc ex_now "ex_handler 5 100" ex_source_c2 True "''g''" 1]
  by (simp add: run_defs ex_defs ex_source_c2_def)

text \<open>
  C4 as stated fails. With \<open>days = 0\<close> the source is asked for a page, and a message
  stamped exactly \<open>now\<close> is returned.
\<close>

theorem C4_counterexample:
  "fetch_group_messages fromtimestamp_utc ex_now (ex_handler 1 1) ex_source_c4 True ''g'' 0
     = Some (Inr [ex_msg 1704067200 5])
   \<and> page_requests fromtimestamp_utc ex_now (ex_handler 1 1) ex_source_c4 True ''g'' 0 = Some 1"
  by (simp add: run_defs ex_defs ex_source_c4_def)

text \<open>
  C4, amended. With \<open>days = 0\<close> the window is the single instant \<open>now\<close>: every
  returned message has exactly that timestamp, and the loop still issues at least one page
  request when the client and the group id are valid and both limits are positive.
\<close>

theorem C4_zero_days:
  "(\<forall>msgs. fetch_group_messages f now self source b g 0 = Some (Inr msgs) \<longrightarrow>
      (\<forall>m \<in> set msgs. f (time m) = Some now))
   \<and> (b \<and> g \<noteq> [] \<and> 0 \<le> now \<and> now \<le> datetime_max
        \<and> 0 < max_query_rounds self \<and> 0 < max_messages self
      \<longrightarrow> (\<forall>n. page_requests f now self source b g 0 = Some n \<longrightarrow> 1 \<le> n))"
proof (intro conjI impI allI)
  fix msgs assume "fetch_group_messages f now self source b g 0 = Some (Inr msgs)"
  from fetch_messages_in_window[OF this]
  show "\<forall>m \<in> set msgs. f (time m) = Some now"
    by (auto simp: list_all_iff in_window_def split: option.splits)
next
  fix n
  assume a: "b \<and> g \<noteq> [] \<and> 0 \<le> now \<and> now \<le> datetime_max
             \<and> 0 < max_query_rounds self \<and> 0 < max_messages self"
    and n: "page_requests f now self source b g 0 = Some n"
  let ?st0 = "\<lparr>messages = [], message_seq = 0, query_rounds = 0,
               consecutive_failures = 0, requests = 0\<rparr>"
  from a have run: "fetch_run f now self source b g 0
                      = map_option loop_outcome (fetch_loop f self source now now ?st0)"
    by (simp add: fetch_run_def timedelta_days_def datetime_sub_def)
  with n obtain st' x where l: "fetch_loop f self source now now ?st0 = Some (st', x)"
    and r: "n = requests st'"
    by (auto simp: page_requests_def outcome_requests_def loop_outcome_def
          split: option.splits)
  from a have "loop_guard self ?st0" by (simp add: loop_guard_def)
  from fetch_loop_first_request[OF l this] r show "1 \<le> n" by simp
qed

text \<open>C4, amended, at the input of its counterexample.\<close>

theorem C4_zero_days_witness:
  "fetch_group_messages fromtimestamp_utc ex_now (ex_handler 1 1) ex_source_c4 True ''g'' 0
     = Some (Inr [ex_msg 1704067200 5])
   \<and> fromtimestamp_utc (time (ex_msg 1704067200 5)) = Some ex_now
   \<and> ''g'' \<noteq> [] \<and> 0 \<le> ex_now \<and> ex_now \<le> datetime_max
   \<and> 0 < max_query_rounds (ex_handler 1 1) \<and> 0 < max_messages (ex_handler 1 1)
   \<and> page_requests fromtimestamp_utc ex_now (ex_handler 1 1) ex_source_c4 True ''g'' 0 = Some 1"
  using C4_zero_days[of fromtimestamp_utc ex_now "ex_handler 1 1" ex_source_c4 True "''g''"]
  by (simp add: run_defs ex_defs ex_source_c4_def)

text \<open>
  C5 does not hold of the code. The counter is reset at line 80, before the page is
  processed, so a round that raises after the reset counts as the first failure whatever
  came before. On pages whose first message has no id, line 112 raises KeyError in every
  round: five rounds fail in a row without stopping the fetch, which ends on
  \<open>max_messages\<close> with the counter at 1. A round entered with two failures counted
  whose \<open>"messages"\<close> value cannot be iterated ends with one and goes on; five such rounds
  in a row are followed by a sixth request; and when every answer is of that kind the call
  never ends.
\<close>

theorem C5_threshold_missed:
  "fetch_run fromtimestamp_utc ex_now (ex_handler 5 5) ex_source_no_id True ''g'' 1
     = Some (LoopEnded
         \<lparr>messages = replicate 5
            \<lparr>time = 1704067100, sender_user_id = Some ''10001'', message_id = None,
             message = []\<rparr>,
          message_seq = 0, query_rounds = 0, consecutive_failures = 1, requests = 5\<rparr>)
   \<and> fetch_round fromtimestamp_utc (ex_handler 5 100) ex_source_not_iterable
       (ex_now - 86400000000) ex_now ex_state_two_failures
     = (ex_state_two_failures\<lparr>requests := 1, consecutive_failures := 1\<rparr>, Continue)
   \<and> page_requests fromtimestamp_utc ex_now (ex_handler 5 100) ex_source_five_failures
        True ''g'' 1 = Some 6
   \<and> fetch_group_messages fromtimestamp_utc ex_now (ex_handler 5 100) ex_source_not_iterable
        True ''g'' 1 = None"
proof -
  have "loop_guard (ex_handler 5 100)
          \<lparr>messages = [], message_seq = 0, query_rounds = 0,
           consecutive_failures = 0, requests = 0\<rparr>"
    by (simp add: loop_guard_def ex_handler_def)
  then have "fetch_loop fromtimestamp_utc (ex_handler 5 100) ex_source_not_iterable
               (ex_now - 1 * 86400000000) ex_now
               \<lparr>messages = [], message_seq = 0, query_rounds = 0,
                consecutive_failures = 0, requests = 0\<rparr> = None"
    by (intro fetch_loop_never_ends) (simp_all add: ex_source_not_iterable_def)
  then have "fetch_group_messages fromtimestamp_utc ex_now (ex_handler 5 100)
               ex_source_not_iterable True ''g'' 1 = None"
    by (simp add: fetch_group_messages_def fetch_run_def timedelta_days_def datetime_sub_def
          ex_now_def datetime_max_def)
  moreover have "fetch_round fromtimestamp_utc (ex_handler 5 100) ex_source_not_iterable
       (ex_now - 86400000000) ex_now ex_state_two_failures
     = (ex_state_two_failures\<lparr>requests := 1, consecutive_failures := 1\<rparr>, Continue)"
    by (simp add: fetch_round_def count_failure_def max_failures_def
          ex_source_not_iterable_def ex_state_two_failures_def)
  moreover have "page_requests fromtimestamp_utc ex_now (ex_handler 5 100)
                   ex_source_five_failures True ''g'' 1 = Some 6"
    by (simp add: run_defs ex_defs ex_source_five_failures_def)
  moreover have "fetch_run fromtimestamp_utc ex_now (ex_handler 5 5) ex_source_no_id True ''g'' 1
     = Some (LoopEnded
         \<lparr>messages = replicate 5
            \<lparr>time = 1704067100, sender_user_id = Some ''10001'', message_id = None,
             message = []\<rparr>,
          message_seq = 0, query_rounds = 0, consecutive_failures = 1, requests = 5\<rparr>)"
    by (simp add: run_defs ex_defs ex_source_no_id_def numeral_eq_Suc)
  ultimately show ?thesis by simp
qed

text \<open>
  C6 does not hold of the code. \<open>oldest_msg_time\<close> is overwritten by every message, so
  it ends as the time of the last message of the page. On a page whose first message is
  older than the window start and whose last message is inside the window, the minimum
  timestamp is before \<open>start_time\<close>, yet the loop goes on to a second request.
\<close>

theorem C6_last_not_oldest:
  "page_min_time fromtimestamp_utc
       [Msg (ex_msg 1703900000 30), Msg (ex_msg 1704067100 31)] = Some 63839496800000000
   \<and> 63839496800000000 < ex_now - 1 * 86400000000
   \<and> ex_source_c6 0 0 = Page [Msg (ex_msg 1703900000 30), Msg (ex_msg 1704067100 31)]
   \<and> page_requests fromtimestamp_utc ex_now (ex_handler 5 100) ex_source_c6 True ''g'' 1
       = Some 2
   \<and> fetch_group_messages fromtimestamp_utc ex_now (ex_handler 5 100) ex_source_c6 True ''g'' 1
       = Some (Inr [ex_msg 1704067100 31])"
  by (simp add: run_defs ex_defs ex_source_c6_def)

section \<open>Properties of calculate_statistics\<close>

lemmas stats_defs = calculate_statistics_def statistics_arguments_def dataclass_init_def
  GroupStatistics_field_names_def GroupStatistics_required_names_def call_keywords_def
  most_active_hour_of_def format_period_def
  format_02d_def decimal.simps digit_char_def hour_of_def total_emoji_count_def
  EmojiStatistics_init_def TokenUsage_init_def count_content_def dict_get_def py_len_def
  marker_animated_sticker_def marker_sticker_def message_hours_def sublist_code

lemma keyset_dict_incr: "fst ` set (dict_incr d k) = insert k (fst ` set d)"
  by (induction d) force+

lemma keys_dict_incr:
  "map fst (dict_incr d k) = (if k \<in> fst ` set d then map fst d else map fst d @ [k])"
  by (induction d) force+

lemma map_of_dict_incr:
  "map_of (dict_incr d k) = (map_of d)(k \<mapsto> (case map_of d k of None \<Rightarrow> 1 | Some v \<Rightarrow> v + 1))"
  by (induction d) (auto simp: fun_eq_iff)

lemma set_first_seen [simp]: "set (first_seen xs) = set xs"
  by (induction xs) auto

lemma distinct_first_seen [simp]: "distinct (first_seen xs)"
  by (induction xs) auto

lemma keys_fold_dict_incr:
  "map fst (fold (\<lambda>h d. dict_incr d h) hs d)
     = map fst d @ filter (\<lambda>k. k \<notin> fst ` set d) (first_seen hs)"
proof (induction hs arbitrary: d)
  case Nil
  then show ?case by simp
next
  case (Cons h hs)
  have ks: "fst ` set (dict_incr d h) = insert h (fst ` set d)" by (rule keyset_dict_incr)
  have "map fst (fold (\<lambda>h d. dict_incr d h) (h # hs) d)
        = map fst (dict_incr d h) @ filter (\<lambda>k. k \<notin> insert h (fst ` set d)) (first_seen hs)"
    using Cons.IH[of "dict_incr d h"] by (simp only: fold_simps ks)
  also have "\<dots> = map fst d @ filter (\<lambda>k. k \<notin> fst ` set d) (first_seen (h # hs))"
    by (simp add: keys_dict_incr)
  finally show ?case .
qed

lemma map_of_fold_dict_incr:
  "map_of (fold (\<lambda>h d. dict_incr d h) hs d) k
     = (if k \<in> set hs
        then Some ((case map_of d k of None \<Rightarrow> 0 | Some v \<Rightarrow> v) + int (count_list hs k))
        else map_of d k)"
  by (induction hs arbitrary: d) (auto simp: map_of_dict_incr split: option.splits)

lemma keys_histogram: "map fst (histogram hs) = first_seen hs"
  by (simp add: histogram_def keys_fold_dict_incr)

lemma histogram_count:
  assumes "y \<in> set (histogram hs)"
  shows "snd y = int (count_list hs (fst y))"
proof -
  have "distinct (map fst (histogram hs))" by (simp add: keys_histogram)
  with assms have "map_of (histogram hs) (fst y) = Some (snd y)" by simp
  then show ?thesis
    by (simp add: histogram_def map_of_fold_dict_incr split: if_splits)
qed

lemma py_max_by_count_first:
  "\<exists>pre post. best # xs = pre @ py_max_by_count best xs # post
     \<and> (\<forall>y \<in> set pre. snd y < snd (py_max_by_count best xs))
     \<and> (\<forall>y \<in> set post. snd y \<le> snd (py_max_by_count best xs))"
proof (induction xs arbitrary: best)
  case Nil
  show ?case by (intro exI[of _ "[]"]) simp
next
  case (Cons x xs)
  show ?case
  proof (cases "snd best < snd x")
    case True
    define r where "r = py_max_by_count x xs"
    from Cons.IH[of x] obtain pre post where
      d: "x # xs = pre @ r # post" and
      p: "\<forall>y \<in> set pre. snd y < snd r" and q: "\<forall>y \<in> set post. snd y \<le> snd r"
      unfolding r_def by blast
    have "snd x \<le> snd r"
    proof (cases pre)
      case Nil
      with d show ?thesis by simp
    next
      case (Cons a as)
      with d p show ?thesis by auto
    qed
    with True have "snd best < snd r" by simp
    with d p q have "best # x # xs = (best # pre) @ r # post
        \<and> (\<forall>y \<in> set (best # pre). snd y < snd r) \<and> (\<forall>y \<in> set post. snd y \<le> snd r)"
      by simp
    moreover from True have "py_max_by_count best (x # xs) = r" by (simp add: r_def)
    ultimately show ?thesis by blast
  next
    case False
    define r where "r = py_max_by_count best xs"
    from Cons.IH[of best] obtain pre post where
      d: "best # xs = pre @ r # post" and
      p: "\<forall>y \<in> set pre. snd y < snd r" and q: "\<forall>y \<in> set post. snd y \<le> snd r"
      unfolding r_def by blast
    have "\<exists>pre' post'. best # x # xs = pre' @ r # post'
        \<and> (\<forall>y \<in> set pre'. snd y < snd r) \<and> (\<forall>y \<in> set post'. snd y \<le> snd r)"
    proof (cases pre)
      case Nil
      with d have "r = best" "post = xs" by simp_all
      with q False have "best # x # xs = [] @ r # (x # xs)
          \<and> (\<forall>y \<in> set []. snd y < snd r) \<and> (\<forall>y \<in> set (x # xs). snd y \<le> snd r)"
        by auto
      then show ?thesis by blast
    next
      case (Cons a as)
      with d have a: "a = best" and xs: "xs = as @ r # post" by simp_all
      from p Cons a have "snd best < snd r" by simp
      with False have "snd x < snd r" by simp
      with p q Cons a xs have "best # x # xs = (best # x # as) @ r # post
          \<and> (\<forall>y \<in> set (best # x # as). snd y < snd r) \<and> (\<forall>y \<in> set post. snd y \<le> snd r)"
        by auto
      then show ?thesis by blast
    qed
    moreover from False have "py_max_by_count best (x # xs) = r" by (simp add: r_def)
    ultimately show ?thesis by simp
  qed
qed

lemma most_active_hour_first_max:
  assumes "hs \<noteq> []"
  shows "\<exists>pre post. first_seen hs = pre @ most_active_hour_of (histogram hs) # post
     \<and> (\<forall>k \<in> set pre. count_list hs k < count_list hs (most_active_hour_of (histogram hs)))
     \<and> (\<forall>k \<in> set post. count_list hs k \<le> count_list hs (most_active_hour_of (histogram hs)))"
proof -
  from assms have "first_seen hs \<noteq> []" by (cases hs) auto
  then have "histogram hs \<noteq> []" using keys_histogram[of hs] by auto
  then obtain x xs where h: "histogram hs = x # xs" by (cases "histogram hs") auto
  define r where "r = py_max_by_count x xs"
  from py_max_by_count_first[of x xs] obtain pre post where
    d: "x # xs = pre @ r # post" and
    p: "\<forall>y \<in> set pre. snd y < snd r" and q: "\<forall>y \<in> set post. snd y \<le> snd r"
    unfolding r_def by blast
  have H: "most_active_hour_of (histogram hs) = fst r"
    by (simp add: most_active_hour_of_def h r_def)
  have cnt: "\<And>y. y \<in> set (histogram hs) \<Longrightarrow> snd y = int (count_list hs (fst y))"
    by (rule histogram_count)
  have r: "snd r = int (count_list hs (fst r))" using cnt[of r] h d by simp
  have keys: "first_seen hs = map fst pre @ fst r # map fst post"
    using keys_histogram[of hs] h d by simp
  have "\<forall>k \<in> set (map fst pre). count_list hs k < count_list hs (fst r)"
  proof
    fix k assume "k \<in> set (map fst pre)"
    then obtain y where y: "y \<in> set pre" "k = fst y" by auto
    with p have "snd y < snd r" by blast
    moreover from y h d have "snd y = int (count_list hs (fst y))" using cnt[of y] by simp
    ultimately show "count_list hs k < count_list hs (fst r)" using r y by simp
  qed
  moreover have "\<forall>k \<in> set (map fst post). count_list hs k \<le> count_list hs (fst r)"
  proof
    fix k assume "k \<in> set (map fst post)"
    then obtain y where y: "y \<in> set post" "k = fst y" by auto
    with q have "snd y \<le> snd r" by blast
    moreover from y h d have "snd y = int (count_list hs (fst y))" using cnt[of y] by simp
    ultimately show "count_list hs k \<le> count_list hs (fst r)" using r y by simp
  qed
  ultimately show ?thesis using keys H by metis
qed

lemma most_active_hour_mem:
  assumes "hs \<noteq> []"
  shows "most_active_hour_of (histogram hs) \<in> set hs"
proof -
  from most_active_hour_first_max[OF assms] obtain pre post where
    "first_seen hs = pre @ most_active_hour_of (histogram hs) # post" by blast
  then have "most_active_hour_of (histogram hs) \<in> set (first_seen hs)" by simp
  then show ?thesis by simp
qed

lemma stats_loop_hours:
  "stats_loop f sl msgs acc = Inr acc' \<Longrightarrow>
   hour_counts acc' = fold (\<lambda>h d. dict_incr d h) (message_hours f msgs) (hour_counts acc)"
proof (induction msgs arbitrary: acc)
  case Nil
  then show ?case by (simp add: message_hours_def)
next
  case (Cons m msgs)
  from Cons.prems obtain sid t where
    s: "sender_user_id m = Some sid" and t: "f (time m) = Some t"
    by (auto split: option.splits)
  obtain tc es where c: "fold (count_content sl) (message m) (total_chars acc, emoji_acc acc) = (tc, es)"
    by (cases "fold (count_content sl) (message m) (total_chars acc, emoji_acc acc)") auto
  let ?acc = "\<lparr>total_chars = tc, participants = insert sid (participants acc),
               hour_counts = dict_incr (hour_counts acc) (hour_of t), emoji_acc = es\<rparr>"
  from Cons.prems s t c have "stats_loop f sl msgs ?acc = Inr acc'" by simp
  from Cons.IH[OF this] t show ?case by (simp add: message_hours_def)
qed

lemma message_hours_lt_24: "h \<in> set (message_hours f msgs) \<Longrightarrow> h < 24"
  by (auto simp: message_hours_def hour_of_def split: option.splits)

lemma length_format_02d: "n < 100 \<Longrightarrow> length (format_02d n) = 2"
  by (simp add: format_02d_def decimal.simps[of n] decimal.simps[of "n div 10"])

lemma length_format_period: "h < 24 \<Longrightarrow> length (format_period h) = 11"
  by (simp add: format_period_def length_format_02d)

lemma statistics_arguments_Inr:
  assumes "statistics_arguments f sl msgs = Inr args"
  obtains acc where
    "stats_loop f sl msgs \<lparr>total_chars = 0, participants = {}, hour_counts = [],
                            emoji_acc = EmojiStatistics_init\<rparr> = Inr acc"
    and "most_active_period args = format_period (most_active_hour_of (hour_counts acc))"
    and "emoji_count args = total_emoji_count (emoji_acc acc)"
    and "emoji_statistics args = emoji_acc acc"
  using assms
  by (auto simp: statistics_arguments_def split: sum.splits)

text \<open>The constructor call raises whatever the arguments are, so the method never returns.\<close>

lemma calculate_statistics_raises:
  "\<exists>r. fst (calculate_statistics f sl viz vs msgs) = Inl r"
  by (simp add: calculate_statistics_def dataclass_init_def GroupStatistics_field_names_def
        call_keywords_def split: sum.splits prod.splits)

text \<open>
  C3 as stated fails. Eleven messages with hour counts 9:5, 14:5 and 3:1, the first of them
  at hour 14, make the method compute the period 14:00-15:00 (and raise at the constructor).
\<close>

theorem C3_counterexample:
  "length ex_messages_c3 = 11
   \<and> count_list (message_hours fromtimestamp_utc ex_messages_c3) 9 = 5
   \<and> count_list (message_hours fromtimestamp_utc ex_messages_c3) 14 = 5
   \<and> count_list (message_hours fromtimestamp_utc ex_messages_c3) 3 = 1
   \<and> statistics_arguments fromtimestamp_utc ex_str_lower ex_messages_c3
       = Inr (ex_stats_c3 ''14:00-15:00'')
   \<and> calculate_statistics fromtimestamp_utc ex_str_lower ex_visualizer 0 ex_messages_c3
       = (Inl (Exc TypeError), 1)"
  by (simp add: stats_defs ex_defs ex_messages_c3_def ex_msg_hour_def ex_visualizer_def
        ex_stats_c3_def)

text \<open>
  C3, amended. In the values the method computes for the constructor, the most active hour
  \<open>H\<close> has the maximal count, and among the hours with that count it is the one that
  appears first in the message list: every hour seen before it has a strictly smaller
  count. An empty list gives hour 0. The period is \<open>HH:00-HH:00\<close> with the second hour
  \<open>(H + 1) mod 24\<close>, eleven characters long.
\<close>

theorem C3_first_seen_maximum:
  assumes "statistics_arguments f sl msgs = Inr args"
  shows "\<exists>H. H < 24
     \<and> most_active_period args
         = format_02d H @ '':00-'' @ format_02d ((H + 1) mod 24) @ '':00''
     \<and> length (most_active_period args) = 11
     \<and> (if msgs = [] then H = 0
         else \<exists>pre post. first_seen (message_hours f msgs) = pre @ H # post
                \<and> (\<forall>k \<in> set pre. count_list (message_hours f msgs) k
                                     < count_list (message_hours f msgs) H)
                \<and> (\<forall>k \<in> set post. count_list (message_hours f msgs) k
                                      \<le> count_list (message_hours f msgs) H))"
proof -
  from assms obtain acc where
    loop: "stats_loop f sl msgs \<lparr>total_chars = 0, participants = {}, hour_counts = [],
                                  emoji_acc = EmojiStatistics_init\<rparr> = Inr acc"
    and per: "most_active_period args = format_period (most_active_hour_of (hour_counts acc))"
    by (rule statistics_arguments_Inr)
  let ?hs = "message_hours f msgs"
  from stats_loop_hours[OF loop] have hc: "hour_counts acc = histogram ?hs"
    by (simp add: histogram_def)
  define H where "H = most_active_hour_of (histogram ?hs)"
  have tie: "if msgs = [] then H = 0
         else \<exists>pre post. first_seen ?hs = pre @ H # post
                \<and> (\<forall>k \<in> set pre. count_list ?hs k < count_list ?hs H)
                \<and> (\<forall>k \<in> set post. count_list ?hs k \<le> count_list ?hs H)"
  proof (cases "msgs = []")
    case True
    then show ?thesis
      by (simp add: H_def message_hours_def histogram_def most_active_hour_of_def)
  next
    case False
    then have "?hs \<noteq> []" by (simp add: message_hours_def)
    from most_active_hour_first_max[OF this] False show ?thesis by (simp add: H_def)
  qed
  have lt: "H < 24"
  proof (cases "msgs = []")
    case True
    with tie show ?thesis by simp
  next
    case False
    then have "?hs \<noteq> []" by (simp add: message_hours_def)
    from most_active_hour_mem[OF this] show ?thesis
      unfolding H_def by (rule message_hours_lt_24)
  qed
  from per hc have "most_active_period args = format_period H" by (simp add: H_def)
  with lt tie length_format_period[OF lt] show ?thesis
    by (intro exI[of _ H]) (simp add: format_period_def)
qed

text \<open>
  C3, amended, on eleven messages with the same counts whose first message is at hour 9:
  the period computed is 09:00-10:00.
\<close>

theorem C3_first_seen_maximum_witness:
  "statistics_arguments fromtimestamp_utc ex_str_lower ex_messages_c3w
     = Inr (ex_stats_c3 ''09:00-10:00'')
   \<and> first_seen (message_hours fromtimestamp_utc ex_messages_c3w) = [] @ 9 # [14, 3]
   \<and> count_list (message_hours fromtimestamp_utc ex_messages_c3w) 9 = 5
   \<and> count_list (message_hours fromtimestamp_utc ex_messages_c3w) 14 = 5
   \<and> count_list (message_hours fromtimestamp_utc ex_messages_c3w) 3 = 1
   \<and> most_active_period (ex_stats_c3 ''09:00-10:00'')
       = format_02d 9 @ '':00-'' @ format_02d ((9 + 1) mod 24) @ '':00''"
proof -
  have e: "statistics_arguments fromtimestamp_utc ex_str_lower ex_messages_c3w
             = Inr (ex_stats_c3 ''09:00-10:00'')"
    by (simp add: stats_defs ex_defs ex_messages_c3w_def ex_msg_hour_def ex_stats_c3_def)
  from C3_first_seen_maximum[OF e] e show ?thesis
    by (simp add: stats_defs ex_defs ex_messages_c3w_def ex_msg_hour_def ex_stats_c3_def)
qed


text \<open>
  C10 does not hold of the code: no \<open>GroupStatistics\<close> is returned, whatever the
  message list. The constructor is called with the keyword \<open>activity_visualization\<close>,
  which the dataclass does not declare, and raises TypeError, here on a message with five
  emoji. The \<open>emoji_count\<close> computed for the call is the sum of the five counters.
\<close>

theorem C10_constructor_raises:
  "(\<forall>f sl viz vs msgs. \<exists>r. fst (calculate_statistics f sl viz vs msgs) = Inl r)
   \<and> calculate_statistics fromtimestamp_utc ex_str_lower ex_visualizer 0 [ex_emoji_message]
     = (Inl (Exc TypeError), 1)
   \<and> statistics_arguments fromtimestamp_utc ex_str_lower [ex_emoji_message] = Inr ex_stats_c10
   \<and> emoji_count ex_stats_c10
       = face_count (emoji_statistics ex_stats_c10) + mface_count (emoji_statistics ex_stats_c10)
         + bface_count (emoji_statistics ex_stats_c10) + sface_count (emoji_statistics ex_stats_c10)
         + other_emoji_count (emoji_statistics ex_stats_c10)"
proof -
  have "calculate_statistics fromtimestamp_utc ex_str_lower ex_visualizer 0 [ex_emoji_message]
     = (Inl (Exc TypeError), 1)
   \<and> statistics_arguments fromtimestamp_utc ex_str_lower [ex_emoji_message] = Inr ex_stats_c10
   \<and> emoji_count ex_stats_c10
       = face_count (emoji_statistics ex_stats_c10) + mface_count (emoji_statistics ex_stats_c10)
         + bface_count (emoji_statistics ex_stats_c10) + sface_count (emoji_statistics ex_stats_c10)
         + other_emoji_count (emoji_statistics ex_stats_c10)"
    by (simp add: stats_defs ex_defs ex_emoji_message_def ex_visualizer_def ex_str_lower_def
          ex_stats_c10_def)
  with calculate_statistics_raises show ?thesis by blast
qed

section \<open>Properties of analyze\<close>

lemmas analyze_defs = analyze_def analyze_try_def analyze_except_def dict_item_def
  TokenUsage_init_def ex_analyzer_def ex_utils_def ex_utils_raising_def ex_utils_cancelled_def

lemma analyze_try_Inr_nonzero:
  assumes a: "analyze_try self utils data umo = Inr r" and nz: "r \<noteq> ([], TokenUsage_init)"
  shows "steps_returned self utils data umo"
proof -
  from a obtain prompt where s1: "build_prompt self data = Inr prompt"
    by (cases "build_prompt self data") (simp_all add: analyze_try_def)
  from a s1 obtain data_type where g1: "get_data_type self = Inr data_type"
    by (cases "get_data_type self") (simp_all add: analyze_try_def)
  from a s1 g1 obtain max_tokens where g2: "get_max_tokens self = Inr max_tokens"
    by (cases "get_max_tokens self") (simp_all add: analyze_try_def)
  from a s1 g1 g2 obtain temperature where g3: "get_temperature self = Inr temperature"
    by (cases "get_temperature self") (simp_all add: analyze_try_def)
  note g = g1 g2 g3
  from a nz s1 g obtain response where
    s2: "call_provider_with_retry utils prompt max_tokens temperature umo = Inr (Some response)"
    by (cases "call_provider_with_retry utils prompt max_tokens temperature umo")
       (auto simp: analyze_try_def split: option.splits)
  from a s1 g s2 obtain tud where s3: "extract_token_usage utils response = Inr tud"
    by (cases "extract_token_usage utils response") (simp_all add: analyze_try_def)
  from a s1 g s2 s3 obtain pt where s4: "map_of tud ''prompt_tokens'' = Some pt"
    by (cases "map_of tud ''prompt_tokens''") (simp_all add: analyze_try_def dict_item_def)
  from a s1 g s2 s3 s4 obtain ct where s5: "map_of tud ''completion_tokens'' = Some ct"
    by (cases "map_of tud ''completion_tokens''") (simp_all add: analyze_try_def dict_item_def)
  from a s1 g s2 s3 s4 s5 obtain tt where s6: "map_of tud ''total_tokens'' = Some tt"
    by (cases "map_of tud ''total_tokens''") (simp_all add: analyze_try_def dict_item_def)
  from a s1 g s2 s3 s4 s5 s6 obtain rtext where s7: "extract_response_text utils response = Inr rtext"
    by (cases "extract_response_text utils response")
       (simp_all add: analyze_try_def dict_item_def)
  from a s1 g s2 s3 s4 s5 s6 s7 obtain success parsed err where
    s8: "parse_json_response utils rtext data_type = Inr (success, parsed, err)"
    by (cases "parse_json_response utils rtext data_type")
       (auto simp: analyze_try_def dict_item_def)
  have s9: "if success \<and> parsed \<noteq> []
           then \<not> isl (create_data_objects self parsed)
           else (case get_max_count self of
                   Inl r \<Rightarrow> False
                 | Inr max_count \<Rightarrow>
                     (case extract_with_regex self rtext max_count of
                        Inl r \<Rightarrow> False
                      | Inr regex_data \<Rightarrow>
                          regex_data = [] \<or> \<not> isl (create_data_objects self regex_data)))"
    using a s1 g s2 s3 s4 s5 s6 s7 s8
    by (auto simp: analyze_try_def dict_item_def Let_def split: sum.splits if_splits)
  from s1 g s2 s3 s4 s5 s6 s7 s8 s9 show ?thesis
    unfolding steps_returned_def by blast
qed

text \<open>
  When \<open>get_data_type\<close> raises, \<open>analyze\<close> does not return: the body raises at its
  first log line at the latest, and the log line of the handler raises again.
\<close>

lemma analyze_get_data_type_raises:
  assumes "get_data_type self = Inl r"
  shows "\<exists>r'. analyze self utils data umo = Inl r'"
proof (cases "build_prompt self data")
  case (Inl r1)
  with assms show ?thesis
    by (cases r1) (simp_all add: analyze_def analyze_try_def analyze_except_def)
next
  case (Inr prompt)
  with assms show ?thesis
    by (cases r) (simp_all add: analyze_def analyze_try_def analyze_except_def)
qed

text \<open>
  C7 as stated fails. When the coroutine is cancelled while the provider call is awaited, the
  \<open>CancelledError\<close> raised at the \<open>await\<close> is not an \<open>Exception\<close>: the handler does not
  catch it and it reaches the caller of \<open>analyze\<close>.
\<close>

theorem C7_counterexample:
  "call_provider_with_retry ex_utils_cancelled ''summarise: chat'' default_max_tokens
       default_temperature None = Inl (BaseExc CancelledError)
   \<and> analyze ex_analyzer ex_utils_cancelled ''chat'' None = Inl (BaseExc CancelledError)"
  by (simp add: analyze_defs)

text \<open>
  C7, amended. When \<open>get_data_type\<close> returns, \<open>analyze\<close> returns the empty list with an
  all-zero \<open>TokenUsage\<close> when the provider returns None and when the body raises an
  instance of \<open>Exception\<close> at any step. An exception of the body that is not an instance
  of \<open>Exception\<close> reaches the caller, and nothing else does. Unless every step of the
  body returned, the result is the empty list with an all-zero \<open>TokenUsage\<close> or such an
  exception.
\<close>

theorem C7_analyze_exceptions:
  assumes "get_data_type self = Inr data_type"
  shows "(\<forall>prompt max_tokens temperature.
            build_prompt self data = Inr prompt
            \<and> get_max_tokens self = Inr max_tokens \<and> get_temperature self = Inr temperature
            \<and> call_provider_with_retry utils prompt max_tokens temperature umo = Inr None
          \<longrightarrow> analyze self utils data umo = Inr ([], TokenUsage_init))
   \<and> (\<forall>e. analyze_try self utils data umo = Inl (Exc e)
        \<longrightarrow> analyze self utils data umo = Inr ([], TokenUsage_init))
   \<and> (\<forall>b. analyze_try self utils data umo = Inl (BaseExc b)
        \<longrightarrow> analyze self utils data umo = Inl (BaseExc b))
   \<and> (\<forall>r. analyze self utils data umo = Inl r
        \<longrightarrow> (\<exists>b. r = BaseExc b \<and> analyze_try self utils data umo = Inl (BaseExc b)))
   \<and> (\<not> steps_returned self utils data umo
        \<longrightarrow> analyze self utils data umo = Inr ([], TokenUsage_init)
            \<or> (\<exists>b. analyze self utils data umo = Inl (BaseExc b)))"
proof (intro conjI allI impI)
  fix prompt max_tokens temperature
  assume "build_prompt self data = Inr prompt
          \<and> get_max_tokens self = Inr max_tokens \<and> get_temperature self = Inr temperature
          \<and> call_provider_with_retry utils prompt max_tokens temperature umo = Inr None"
  with assms show "analyze self utils data umo = Inr ([], TokenUsage_init)"
    by (simp add: analyze_def analyze_try_def)
next
  fix e
  assume "analyze_try self utils data umo = Inl (Exc e)"
  with assms show "analyze self utils data umo = Inr ([], TokenUsage_init)"
    by (simp add: analyze_def analyze_except_def)
next
  fix b
  assume "analyze_try self utils data umo = Inl (BaseExc b)"
  then show "analyze self utils data umo = Inl (BaseExc b)"
    by (simp add: analyze_def analyze_except_def)
next
  fix r
  assume "analyze self utils data umo = Inl r"
  with assms show "\<exists>b. r = BaseExc b \<and> analyze_try self utils data umo = Inl (BaseExc b)"
    by (auto simp: analyze_def analyze_except_def split: sum.splits raised.splits)
next
  assume n: "\<not> steps_returned self utils data umo"
  show "analyze self utils data umo = Inr ([], TokenUsage_init)
        \<or> (\<exists>b. analyze self utils data umo = Inl (BaseExc b))"
  proof (cases "analyze_try self utils data umo")
    case (Inl r)
    with assms show ?thesis
      by (cases r) (simp_all add: analyze_def analyze_except_def)
  next
    case (Inr r)
    with n analyze_try_Inr_nonzero[OF Inr] have "r = ([], TokenUsage_init)" by blast
    with Inr show ?thesis by (simp add: analyze_def)
  qed
qed

text \<open>
  C7, amended, with a provider that returns None, with a usage dict that lacks a key (the
  body raises KeyError), and with a provider call that is cancelled.
\<close>

theorem C7_analyze_exceptions_witness:
  "get_data_type ex_analyzer = Inr ''topics''
   \<and> build_prompt ex_analyzer ''chat'' = Inr ''summarise: chat''
   \<and> call_provider_with_retry (ex_utils None) ''summarise: chat'' default_max_tokens
        default_temperature None = Inr None
   \<and> analyze ex_analyzer (ex_utils None) ''chat'' None = Inr ([], TokenUsage_init)
   \<and> analyze_try ex_analyzer ex_utils_raising ''chat'' None = Inl (Exc KeyError)
   \<and> analyze ex_analyzer ex_utils_raising ''chat'' None = Inr ([], TokenUsage_init)
   \<and> analyze_try ex_analyzer ex_utils_cancelled ''chat'' None = Inl (BaseExc CancelledError)
   \<and> analyze ex_analyzer ex_utils_cancelled ''chat'' None = Inl (BaseExc CancelledError)"
proof -
  have t: "get_data_type ex_analyzer = Inr ''topics''"
    by (simp add: ex_analyzer_def)
  from C7_analyze_exceptions[OF t, of "''chat''" "ex_utils None" None]
       C7_analyze_exceptions[OF t, of "''chat''" ex_utils_raising None]
       C7_analyze_exceptions[OF t, of "''chat''" ex_utils_cancelled None]
  show ?thesis
    by (simp add: analyze_try_def dict_item_def ex_analyzer_def ex_utils_def
          ex_utils_raising_def ex_utils_cancelled_def)
qed

text \<open>
  C8. When the structured parse failed or yielded no element, \<open>analyze\<close> calls
  \<open>extract_with_regex\<close> on the response text with the maximum count of the type. Records
  it yields are constructed and returned with the token usage read from the response; when
  it yields none, the empty list is returned with that same token usage. A step of the
  fallback that raises an \<open>Exception\<close> gives the empty list with an all-zero
  \<open>TokenUsage\<close>; what it raises otherwise reaches the caller.
\<close>

theorem C8_regex_fallback:
  assumes "build_prompt self data = Inr prompt"
    and "get_data_type self = Inr data_type"
    and "get_max_tokens self = Inr max_tokens"
    and "get_temperature self = Inr temperature"
    and "call_provider_with_retry utils prompt max_tokens temperature umo = Inr (Some response)"
    and "extract_token_usage utils response = Inr token_usage_dict"
    and "map_of token_usage_dict ''prompt_tokens'' = Some pt"
    and "map_of token_usage_dict ''completion_tokens'' = Some ct"
    and "map_of token_usage_dict ''total_tokens'' = Some tt"
    and "extract_response_text utils response = Inr result_text"
    and "parse_json_response utils result_text data_type = Inr (success, parsed_data, error_msg)"
    and "\<not> success \<or> parsed_data = []"
  shows "analyze self utils data umo =
     (case get_max_count self of
        Inl r \<Rightarrow> (case r of Exc e \<Rightarrow> Inr ([], TokenUsage_init) | BaseExc b \<Rightarrow> Inl (BaseExc b))
      | Inr max_count \<Rightarrow>
     (case extract_with_regex self result_text max_count of
        Inl r \<Rightarrow> (case r of Exc e \<Rightarrow> Inr ([], TokenUsage_init) | BaseExc b \<Rightarrow> Inl (BaseExc b))
      | Inr regex_data \<Rightarrow>
          if regex_data \<noteq> []
          then (case create_data_objects self regex_data of
                  Inl r \<Rightarrow>
                    (case r of Exc e \<Rightarrow> Inr ([], TokenUsage_init) | BaseExc b \<Rightarrow> Inl (BaseExc b))
                | Inr data_objects \<Rightarrow>
                    Inr (data_objects,
                         \<lparr>prompt_tokens = pt, completion_tokens = ct, total_tokens = tt\<rparr>))
          else Inr ([], \<lparr>prompt_tokens = pt, completion_tokens = ct, total_tokens = tt\<rparr>)))"
  using assms
  by (auto simp: analyze_def analyze_try_def analyze_except_def dict_item_def Let_def
        split: sum.splits raised.splits)

text \<open>
  C8 with a response text from which the extractor takes two records, and with an empty
  text from which it takes none: both keep the usage 10, 5, 15.
\<close>

theorem C8_regex_fallback_witness:
  "analyze ex_analyzer (ex_utils (Some ''alpha'')) ''chat'' None
     = Inr ([''topic alpha'', ''topic alpha''],
            \<lparr>prompt_tokens = 10, completion_tokens = 5, total_tokens = 15\<rparr>)
   \<and> get_max_count ex_analyzer = Inr 2
   \<and> extract_with_regex ex_analyzer ''alpha'' 2 = Inr [''alpha'', ''alpha'']
   \<and> analyze ex_analyzer (ex_utils (Some [])) ''chat'' None
     = Inr ([], \<lparr>prompt_tokens = 10, completion_tokens = 5, total_tokens = 15\<rparr>)
   \<and> extract_with_regex ex_analyzer [] 2 = Inr []"
proof -
  have a: "analyze ex_analyzer (ex_utils (Some reply)) ''chat'' None =
     (case get_max_count ex_analyzer of
        Inl r \<Rightarrow> (case r of Exc e \<Rightarrow> Inr ([], TokenUsage_init) | BaseExc b \<Rightarrow> Inl (BaseExc b))
      | Inr max_count \<Rightarrow>
     (case extract_with_regex ex_analyzer reply max_count of
        Inl r \<Rightarrow> (case r of Exc e \<Rightarrow> Inr ([], TokenUsage_init) | BaseExc b \<Rightarrow> Inl (BaseExc b))
      | Inr regex_data \<Rightarrow>
          if regex_data \<noteq> []
          then (case create_data_objects ex_analyzer regex_data of
                  Inl r \<Rightarrow>
                    (case r of Exc e \<Rightarrow> Inr ([], TokenUsage_init) | BaseExc b \<Rightarrow> Inl (BaseExc b))
                | Inr data_objects \<Rightarrow>
                    Inr (data_objects,
                         \<lparr>prompt_tokens = 10, completion_tokens = 5, total_tokens = 15\<rparr>))
          else Inr ([], \<lparr>prompt_tokens = 10, completion_tokens = 5, total_tokens = 15\<rparr>)))"
    for reply
    by (rule C8_regex_fallback[where prompt = "''summarise: chat''" and response = reply
          and data_type = "''topics''" and max_tokens = default_max_tokens
          and temperature = default_temperature
          and token_usage_dict = "[(''prompt_tokens'', 10), (''completion_tokens'', 5),
                                   (''total_tokens'', 15)]"
          and success = False and parsed_data = "[]" and error_msg = "''no JSON array found''"])
       (simp_all add: ex_analyzer_def ex_utils_def)
  from a[of "''alpha''"] a[of "[]"] show ?thesis
    by (simp add: ex_analyzer_def numeral_2_eq_2)
qed

end
